theory Spec2Isabelle
  imports Complex_Main "HOL-Library.Sublist"
begin

section \<open>Strings and JSON values of the JavaScript runtime\<close>

text \<open>
  A JavaScript string is a sequence of UTF-16 code units. A code unit is modelled as a
  natural number, so that the escape \<^verbatim>\<open>\uXXXX\<close> of a JSON text has a value for every
  \<^verbatim>\<open>XXXX\<close>. \<open>js\<close> turns a literal of the theory into such a string.
\<close>

type_synonym jstring = "nat list"

definition cu :: "char \<Rightarrow> nat" where
  "cu c = of_char c"

definition js :: "string \<Rightarrow> jstring" where
  "js s = map cu s"

text \<open>
  A value that \<^verbatim>\<open>JSON.parse\<close> can return. A number carries the exact rational value
  of its literal; JavaScript reads it rounded to the nearest double. The members of an
  object are kept in the order of the text, duplicates included; reading a property
  takes the last member of that name, as \<^verbatim>\<open>JSON.parse\<close> lets the last one win.
  \<open>undefined\<close> is \<open>None\<close> of \<open>json option\<close>.
\<close>

datatype json =
    JNull
  | JBool bool
  | JNumber rat
  | JString jstring
  | JArray "json list"
  | JObject "(jstring \<times> json) list"

text \<open>A thrown value: an \<^verbatim>\<open>Error\<close> instance with its message, or anything else.\<close>

datatype thrown = ErrorObj jstring | NonError

subsection \<open>\<^verbatim>\<open>JSON.parse\<close>: the lexer\<close>

datatype token =
    TLBrace | TRBrace | TLBracket | TRBracket | TColon | TComma
  | TString jstring | TNumber rat | TTrue | TFalse | TNull

datatype numphase = PMinus | PZero | PInt | PDot | PFrac | PE | PESign | PExp

text \<open>
  The lexer reads one code unit at a time. Inside a number it keeps the sign, the digits
  of the mantissa read so far as a number, how many of them came after the point, the
  sign of the exponent and the exponent.
\<close>

datatype lexstate =
    LDefault
  | LStr jstring
  | LEsc jstring
  | LUni jstring nat nat
  | LNum numphase bool nat nat bool nat
  | LLit jstring token

definition is_json_ws :: "nat \<Rightarrow> bool" where
  "is_json_ws c = (c = 32 \<or> c = 9 \<or> c = 10 \<or> c = 13)"

definition is_digit :: "nat \<Rightarrow> bool" where
  "is_digit c = (48 \<le> c \<and> c \<le> 57)"

definition hex_value :: "nat \<Rightarrow> nat option" where
  "hex_value c =
     (if 48 \<le> c \<and> c \<le> 57 then Some (c - 48)
      else if 97 \<le> c \<and> c \<le> 102 then Some (c - 87)
      else if 65 \<le> c \<and> c \<le> 70 then Some (c - 55)
      else None)"

definition num_value :: "bool \<Rightarrow> nat \<Rightarrow> nat \<Rightarrow> bool \<Rightarrow> nat \<Rightarrow> rat" where
  "num_value neg m fd eneg ex =
     (let v = (of_nat m :: rat) / 10 ^ fd;
          w = (if eneg then v / 10 ^ ex else v * 10 ^ ex)
      in if neg then - w else w)"

definition default_step :: "nat \<Rightarrow> (token list \<times> lexstate) option" where
  "default_step c =
     (if is_json_ws c then Some ([], LDefault)
      else if c = cu CHR ''{'' then Some ([TLBrace], LDefault)
      else if c = cu CHR ''}'' then Some ([TRBrace], LDefault)
      else if c = cu CHR ''['' then Some ([TLBracket], LDefault)
      else if c = cu CHR '']'' then Some ([TRBracket], LDefault)
      else if c = cu CHR '':'' then Some ([TColon], LDefault)
      else if c = cu CHR '','' then Some ([TComma], LDefault)
      else if c = cu CHR 0x22 then Some ([], LStr [])
      else if c = cu CHR ''-'' then Some ([], LNum PMinus True 0 0 False 0)
      else if c = cu CHR ''0'' then Some ([], LNum PZero False 0 0 False 0)
      else if is_digit c then Some ([], LNum PInt False (c - 48) 0 False 0)
      else if c = cu CHR ''t'' then Some ([], LLit (js ''rue'') TTrue)
      else if c = cu CHR ''f'' then Some ([], LLit (js ''alse'') TFalse)
      else if c = cu CHR ''n'' then Some ([], LLit (js ''ull'') TNull)
      else None)"

definition end_number ::
  "bool \<Rightarrow> nat \<Rightarrow> nat \<Rightarrow> bool \<Rightarrow> nat \<Rightarrow> nat \<Rightarrow> (token list \<times> lexstate) option" where
  "end_number neg m fd eneg ex c =
     (case default_step c of
        None \<Rightarrow> None
      | Some (ts, st) \<Rightarrow> Some (TNumber (num_value neg m fd eneg ex) # ts, st))"

definition is_exp_mark :: "nat \<Rightarrow> bool" where
  "is_exp_mark c = (c = cu CHR ''e'' \<or> c = cu CHR ''E'')"

fun num_step ::
  "numphase \<Rightarrow> bool \<Rightarrow> nat \<Rightarrow> nat \<Rightarrow> bool \<Rightarrow> nat \<Rightarrow> nat \<Rightarrow> (token list \<times> lexstate) option" where
  "num_step PMinus neg m fd eneg ex c =
     (if c = cu CHR ''0'' then Some ([], LNum PZero neg 0 0 False 0)
      else if is_digit c then Some ([], LNum PInt neg (c - 48) 0 False 0)
      else None)"
| "num_step PZero neg m fd eneg ex c =
     (if c = cu CHR ''.'' then Some ([], LNum PDot neg m fd eneg ex)
      else if is_exp_mark c then Some ([], LNum PE neg m fd eneg ex)
      else end_number neg m fd eneg ex c)"
| "num_step PInt neg m fd eneg ex c =
     (if is_digit c then Some ([], LNum PInt neg (m * 10 + (c - 48)) fd eneg ex)
      else if c = cu CHR ''.'' then Some ([], LNum PDot neg m fd eneg ex)
      else if is_exp_mark c then Some ([], LNum PE neg m fd eneg ex)
      else end_number neg m fd eneg ex c)"
| "num_step PDot neg m fd eneg ex c =
     (if is_digit c then Some ([], LNum PFrac neg (m * 10 + (c - 48)) (Suc fd) eneg ex)
      else None)"
| "num_step PFrac neg m fd eneg ex c =
     (if is_digit c then Some ([], LNum PFrac neg (m * 10 + (c - 48)) (Suc fd) eneg ex)
      else if is_exp_mark c then Some ([], LNum PE neg m fd eneg ex)
      else end_number neg m fd eneg ex c)"
| "num_step PE neg m fd eneg ex c =
     (if c = cu CHR ''+'' then Some ([], LNum PESign neg m fd False ex)
      else if c = cu CHR ''-'' then Some ([], LNum PESign neg m fd True ex)
      else if is_digit c then Some ([], LNum PExp neg m fd eneg (c - 48))
      else None)"
| "num_step PESign neg m fd eneg ex c =
     (if is_digit c then Some ([], LNum PExp neg m fd eneg (c - 48)) else None)"
| "num_step PExp neg m fd eneg ex c =
     (if is_digit c then Some ([], LNum PExp neg m fd eneg (ex * 10 + (c - 48)))
      else end_number neg m fd eneg ex c)"

definition escape_step :: "jstring \<Rightarrow> nat \<Rightarrow> (token list \<times> lexstate) option" where
  "escape_step acc c =
     (if c = cu CHR 0x22 \<or> c = cu CHR 0x5C \<or> c = cu CHR ''/'' then Some ([], LStr (c # acc))
      else if c = cu CHR ''b'' then Some ([], LStr (8 # acc))
      else if c = cu CHR ''f'' then Some ([], LStr (12 # acc))
      else if c = cu CHR ''n'' then Some ([], LStr (10 # acc))
      else if c = cu CHR ''r'' then Some ([], LStr (13 # acc))
      else if c = cu CHR ''t'' then Some ([], LStr (9 # acc))
      else if c = cu CHR ''u'' then Some ([], LUni acc 0 0)
      else None)"

fun lex_step :: "lexstate \<Rightarrow> nat \<Rightarrow> (token list \<times> lexstate) option" where
  "lex_step LDefault c = default_step c"
| "lex_step (LStr acc) c =
     (if c = cu CHR 0x22 then Some ([TString (rev acc)], LDefault)
      else if c = cu CHR 0x5C then Some ([], LEsc acc)
      else if c < 32 then None
      else Some ([], LStr (c # acc)))"
| "lex_step (LEsc acc) c = escape_step acc c"
| "lex_step (LUni acc v k) c =
     (case hex_value c of
        None \<Rightarrow> None
      | Some h \<Rightarrow>
          if k = 3 then Some ([], LStr ((v * 16 + h) # acc))
          else Some ([], LUni acc (v * 16 + h) (Suc k)))"
| "lex_step (LNum ph neg m fd eneg ex) c = num_step ph neg m fd eneg ex c"
| "lex_step (LLit rest t) c =
     (case rest of
        [] \<Rightarrow> None
      | x # xs \<Rightarrow>
          if c \<noteq> x then None
          else if xs = [] then Some ([t], LDefault)
          else Some ([], LLit xs t))"

fun lex_end :: "lexstate \<Rightarrow> token list option" where
  "lex_end LDefault = Some []"
| "lex_end (LNum ph neg m fd eneg ex) =
     (if ph = PZero \<or> ph = PInt \<or> ph = PFrac \<or> ph = PExp
      then Some [TNumber (num_value neg m fd eneg ex)] else None)"
| "lex_end _ = None"

fun lex :: "lexstate \<Rightarrow> jstring \<Rightarrow> token list option" where
  "lex st [] = lex_end st"
| "lex st (c # cs) =
     (case lex_step st c of
        None \<Rightarrow> None
      | Some (ts, st') \<Rightarrow> (case lex st' cs of None \<Rightarrow> None | Some us \<Rightarrow> Some (ts @ us)))"

subsection \<open>\<^verbatim>\<open>JSON.parse\<close>: the grammar\<close>

text \<open>
  The parser keeps the containers that are still open on a stack: an array with the
  elements read so far, an object with the members read so far and the name that waits
  for its value. Elements and members are kept newest first.
\<close>

datatype frame = InArr "json list" | InObj "(jstring \<times> json) list" "jstring option"

datatype expect =
    WantValue
  | WantValueOrEnd
  | WantKeyOrEnd
  | WantKey
  | WantColon
  | AfterValue
  | Finished json

fun reduce :: "json \<Rightarrow> frame list \<Rightarrow> (frame list \<times> expect) option" where
  "reduce v [] = Some ([], Finished v)"
| "reduce v (InArr es # st) = Some (InArr (v # es) # st, AfterValue)"
| "reduce v (InObj ms (Some k) # st) = Some (InObj ((k, v) # ms) None # st, AfterValue)"
| "reduce v (InObj ms None # st) = None"

fun scalar :: "token \<Rightarrow> json option" where
  "scalar (TString s) = Some (JString s)"
| "scalar (TNumber r) = Some (JNumber r)"
| "scalar TTrue = Some (JBool True)"
| "scalar TFalse = Some (JBool False)"
| "scalar TNull = Some JNull"
| "scalar _ = None"

definition value_step :: "token \<Rightarrow> frame list \<Rightarrow> (frame list \<times> expect) option" where
  "value_step t st =
     (if t = TLBracket then Some (InArr [] # st, WantValueOrEnd)
      else if t = TLBrace then Some (InObj [] None # st, WantKeyOrEnd)
      else (case scalar t of None \<Rightarrow> None | Some v \<Rightarrow> reduce v st))"

definition close_step :: "token \<Rightarrow> frame list \<Rightarrow> (frame list \<times> expect) option" where
  "close_step t st =
     (case st of
        InArr es # st' \<Rightarrow> if t = TRBracket then reduce (JArray (rev es)) st' else None
      | InObj ms None # st' \<Rightarrow> if t = TRBrace then reduce (JObject (rev ms)) st' else None
      | _ \<Rightarrow> None)"

definition key_step :: "token \<Rightarrow> frame list \<Rightarrow> (frame list \<times> expect) option" where
  "key_step t st =
     (case (t, st) of
        (TString k, InObj ms None # st') \<Rightarrow> Some (InObj ms (Some k) # st', WantColon)
      | _ \<Rightarrow> None)"

fun parse_step :: "expect \<Rightarrow> token \<Rightarrow> frame list \<Rightarrow> (frame list \<times> expect) option" where
  "parse_step WantValue t st = value_step t st"
| "parse_step WantValueOrEnd t st =
     (if t = TRBracket then close_step t st else value_step t st)"
| "parse_step WantKeyOrEnd t st =
     (if t = TRBrace then close_step t st else key_step t st)"
| "parse_step WantKey t st = key_step t st"
| "parse_step WantColon t st = (if t = TColon then Some (st, WantValue) else None)"
| "parse_step AfterValue t st =
     (if t = TComma
      then (case st of
              InArr es # st' \<Rightarrow> Some (st, WantValue)
            | InObj ms None # st' \<Rightarrow> Some (st, WantKey)
            | _ \<Rightarrow> None)
      else close_step t st)"
| "parse_step (Finished v) t st = None"

fun parse_tokens :: "expect \<Rightarrow> frame list \<Rightarrow> token list \<Rightarrow> json option" where
  "parse_tokens e st [] = (case e of Finished v \<Rightarrow> Some v | _ \<Rightarrow> None)"
| "parse_tokens e st (t # ts) =
     (case parse_step e t st of
        None \<Rightarrow> None
      | Some (st', e') \<Rightarrow> parse_tokens e' st' ts)"

text \<open>\<^verbatim>\<open>JSON.parse(text)\<close>: \<open>None\<close> is the \<^verbatim>\<open>SyntaxError\<close> it throws.\<close>

definition JSON_parse :: "jstring \<Rightarrow> json option" where
  "JSON_parse s =
     (case lex LDefault s of None \<Rightarrow> None | Some ts \<Rightarrow> parse_tokens WantValue [] ts)"

section \<open>What the runtime gives to JSON values\<close>

text \<open>
  \<^verbatim>\<open>!x\<close> is true of \<^verbatim>\<open>undefined\<close>, \<^verbatim>\<open>null\<close>, \<^verbatim>\<open>false\<close>, the empty string and a
  number whose double is zero. A JSON literal is read as the nearest double, ties to even:
  the smallest positive double is \<open>2 ^ -1074\<close>, so the double is zero exactly when the
  literal's absolute value is at most \<open>2 ^ -1075\<close>.
\<close>

definition rounds_to_zero :: "rat \<Rightarrow> bool" where
  "rounds_to_zero r = (\<bar>r\<bar> \<le> 1 / 2 ^ 1075)"

fun truthy :: "json option \<Rightarrow> bool" where
  "truthy None = False"
| "truthy (Some JNull) = False"
| "truthy (Some (JBool b)) = b"
| "truthy (Some (JNumber r)) = (\<not> rounds_to_zero r)"
| "truthy (Some (JString s)) = (s \<noteq> [])"
| "truthy (Some (JArray xs)) = True"
| "truthy (Some (JObject ms)) = True"

text \<open>\<^verbatim>\<open>Array.isArray(x)\<close>.\<close>

fun isArray :: "json option \<Rightarrow> bool" where
  "isArray (Some (JArray xs)) = True"
| "isArray _ = False"

text \<open>
  \<^verbatim>\<open>x.name\<close> for the names this program reads (\<^verbatim>\<open>domain\<close>, \<^verbatim>\<open>audience\<close>,
  \<^verbatim>\<open>difficulty\<close>, \<^verbatim>\<open>time_available_days\<close>, \<^verbatim>\<open>skills\<close>, \<^verbatim>\<open>mode\<close>,
  \<^verbatim>\<open>constraints\<close>, \<^verbatim>\<open>multi_idea_count\<close>, \<^verbatim>\<open>choices\<close>, \<^verbatim>\<open>message\<close>,
  \<^verbatim>\<open>content\<close>, \<^verbatim>\<open>ideas\<close>, \<^verbatim>\<open>error\<close>), none of which a prototype defines. On an
  object it is the last member of that name or \<^verbatim>\<open>undefined\<close>; on a string, a number, a
  boolean or an array it is \<^verbatim>\<open>undefined\<close>. Destructuring reads the same way.
\<close>

fun get_property :: "json \<Rightarrow> jstring \<Rightarrow> json option" where
  "get_property (JObject ms) name = map_of (rev ms) name"
| "get_property _ name = None"

text \<open>
  The read \<^verbatim>\<open>x.name\<close> where \<^verbatim>\<open>x\<close> may be \<^verbatim>\<open>undefined\<close> or \<^verbatim>\<open>null\<close>: there it
  throws a \<^verbatim>\<open>TypeError\<close>, which is \<open>None\<close>.
\<close>

fun member :: "json option \<Rightarrow> jstring \<Rightarrow> json option option" where
  "member None name = None"
| "member (Some JNull) name = None"
| "member (Some v) name = Some (get_property v name)"

text \<open>
  \<^verbatim>\<open>x[0]\<close>: the first element of an array, the first code unit of a string (as a
  string), the member \<^verbatim>\<open>"0"\<close> of an object.
\<close>

fun index0 :: "json option \<Rightarrow> json option option" where
  "index0 None = None"
| "index0 (Some JNull) = None"
| "index0 (Some (JArray xs)) = Some (case xs of [] \<Rightarrow> None | x # _ \<Rightarrow> Some x)"
| "index0 (Some (JString s)) = Some (case s of [] \<Rightarrow> None | c # _ \<Rightarrow> Some (JString [c]))"
| "index0 (Some (JObject ms)) = Some (get_property (JObject ms) (js ''0''))"
| "index0 (Some _) = Some None"

text \<open>
  \<^verbatim>\<open>String(x)\<close>, which a template literal and \<^verbatim>\<open>new Error(x)\<close> apply, throws a
  \<^verbatim>\<open>TypeError\<close> on an object that has a member \<^verbatim>\<open>toString\<close>: the member is not a
  function, and \<^verbatim>\<open>valueOf\<close> gives no primitive. An array is joined, which converts
  its elements. Every other value converts.
\<close>

fun converts :: "json \<Rightarrow> bool" where
  "converts (JObject ms) = (map_of (rev ms) (js ''toString'') = None)"
| "converts (JArray xs) = list_all converts xs"
| "converts _ = True"

text \<open>
  The text of a \<^verbatim>\<open>TypeError\<close> is the engine's. The handler is given it as a function of
  the place that throws.
\<close>

datatype site = Destructure | ReadProperty jstring | ReadIndex0 | CallSubstring | ToPrimitive

section \<open>The gateway: \<^verbatim>\<open>supabase/functions/generate-idea/index.ts\<close>\<close>

subsection \<open>Requests, responses and the outside world\<close>

text \<open>
  Of a request the handler reads the method and \<^verbatim>\<open>await req.json()\<close>, which resolves to
  a JSON value or rejects.
\<close>

record request =
  req_method :: jstring
  req_json :: "thrown + json"

text \<open>
  The answer of the completion endpoint: its status, \<^verbatim>\<open>await response.text()\<close>
  (read for the log when the status is not 2xx) and \<^verbatim>\<open>await response.json()\<close>. Each
  of the two reads resolves, to the text or to a JSON value, or rejects.
  \<^verbatim>\<open>response.ok\<close> is true of the statuses 200 to 299.
\<close>

record upstream =
  up_status :: nat
  up_text :: "thrown + jstring"
  up_json :: "thrown + json"

definition up_ok :: "upstream \<Rightarrow> bool" where
  "up_ok u = (200 \<le> up_status u \<and> up_status u \<le> 299)"

text \<open>
  The world of one invocation: what \<^verbatim>\<open>fetch\<close> gives (it rejects, or resolves to an
  answer) and the engine's texts.
\<close>

record world =
  fetch_result :: "thrown + upstream"
  engine_text :: "site \<Rightarrow> jstring"

text \<open>
  A response: status, headers, and the body. The body is \<open>None\<close> for \<^verbatim>\<open>null\<close>, and
  \<open>Some v\<close> for the text \<^verbatim>\<open>JSON.stringify(v)\<close>.
\<close>

record response =
  status :: nat
  headers :: "(jstring \<times> jstring) list"
  body :: "json option"

text \<open>
  The values interpolated into the user prompt of the one outbound call, in the order of
  the template: the count of ideas, the five required fields, skills and constraints.
\<close>

record model_call =
  call_count :: json
  call_required :: "json list"
  call_skills :: json
  call_constraints :: json

definition corsHeaders :: "(jstring \<times> jstring) list" where
  "corsHeaders =
     [(js ''Access-Control-Allow-Origin'', js ''*''),
      (js ''Access-Control-Allow-Headers'',
       js ''authorization, x-client-info, apikey, content-type'')]"

definition json_headers :: "(jstring \<times> jstring) list" where
  "json_headers = corsHeaders @ [(js ''Content-Type'', js ''application/json'')]"

definition json_response :: "nat \<Rightarrow> json \<Rightarrow> response" where
  "json_response st v = \<lparr>status = st, headers = json_headers, body = Some v\<rparr>"

definition error_body :: "jstring \<Rightarrow> json" where
  "error_body m = JObject [(js ''error'', JString m)]"

definition preflight_response :: response where
  "preflight_response = \<lparr>status = 200, headers = corsHeaders, body = None\<rparr>"

subsection \<open>Coercing the model's text\<close>

text \<open>
  \<^verbatim>\<open>s.replace(/PAT\n?/g, '')\<close> for a literal \<open>pat\<close>: every match, found from left to
  right and taken with the line feed that follows it, is removed; the search goes on
  after the match.
\<close>

definition skip_newline :: "jstring \<Rightarrow> jstring" where
  "skip_newline s = (case s of [] \<Rightarrow> [] | c # cs \<Rightarrow> if c = 10 then cs else s)"

function remove_all :: "jstring \<Rightarrow> jstring \<Rightarrow> jstring" where
  "remove_all pat s =
     (if s = [] \<or> pat = [] then s
      else if take (length pat) s = pat
      then remove_all pat (skip_newline (drop (length pat) s))
      else hd s # remove_all pat (tl s))"
  by pat_completeness auto
termination
proof (relation "measure (\<lambda>(pat, s). length s)", goal_cases)
  case 1
  show ?case by simp
next
  case (2 pat s)
  have "length (skip_newline r) \<le> length r" for r
    by (simp add: skip_newline_def split: list.split)
  then have "length (skip_newline (drop (length pat) s)) \<le> length (drop (length pat) s)" .
  moreover from 2 have "length (drop (length pat) s) < length s"
    by (cases pat) auto
  ultimately show ?case by simp
next
  case (3 pat s)
  then show ?case by (cases s) auto
qed

declare remove_all.simps [simp del]

definition fence :: jstring where
  "fence = js ''```''"

definition json_fence :: jstring where
  "json_fence = js ''```json''"

text \<open>
  \<^verbatim>\<open>s.trim()\<close> removes white space and line terminators at both ends.
\<close>

definition is_space :: "nat \<Rightarrow> bool" where
  "is_space c =
     ((9 \<le> c \<and> c \<le> 13) \<or> c = 32 \<or> c = 160 \<or> c = 5760
      \<or> (8192 \<le> c \<and> c \<le> 8202) \<or> c = 8232 \<or> c = 8233 \<or> c = 8239
      \<or> c = 8287 \<or> c = 12288 \<or> c = 65279)"

definition trim :: "jstring \<Rightarrow> jstring" where
  "trim s = rev (dropWhile is_space (rev (dropWhile is_space s)))"

definition cleanContent :: "jstring \<Rightarrow> jstring" where
  "cleanContent generatedContent =
     trim (remove_all fence (remove_all json_fence generatedContent))"

text \<open>
  The \<^verbatim>\<open>try\<close> block: parse the cleaned text and check that \<^verbatim>\<open>ideas\<close> is an array.
  \<open>None\<close> is any exception, which the \<^verbatim>\<open>catch\<close> does not look at.
\<close>

definition valid_structure :: "json \<Rightarrow> bool" where
  "valid_structure parsedData =
     (case member (Some parsedData) (js ''ideas'') of
        None \<Rightarrow> False
      | Some ideas \<Rightarrow> \<not> (\<not> truthy ideas \<or> \<not> isArray ideas))"

definition direct_parse :: "jstring \<Rightarrow> json option" where
  "direct_parse generatedContent =
     (case JSON_parse (cleanContent generatedContent) of
        None \<Rightarrow> None
      | Some parsedData \<Rightarrow> if valid_structure parsedData then Some parsedData else None)"

text \<open>
  \<^verbatim>\<open>s.match(/\{[\s\S]*\}/)\<close>: the match starts at the first \<^verbatim>\<open>{\<close> and, being greedy,
  ends at the last \<^verbatim>\<open>}\<close> after it; there is none when no \<^verbatim>\<open>}\<close> follows the first
  \<^verbatim>\<open>{\<close>.
\<close>

definition jsonMatch :: "jstring \<Rightarrow> jstring option" where
  "jsonMatch s =
     (let from_brace = dropWhile (\<lambda>c. c \<noteq> cu CHR ''{'') s;
          block = rev (dropWhile (\<lambda>c. c \<noteq> cu CHR ''}'') (rev from_brace))
      in if block = [] then None else Some block)"

text \<open>The parsed data, or the response that ends the handler.\<close>

definition coerce :: "jstring \<Rightarrow> response + json" where
  "coerce generatedContent =
     (case direct_parse generatedContent of
        Some parsedData \<Rightarrow> Inr parsedData
      | None \<Rightarrow>
          (case jsonMatch generatedContent of
             Some block \<Rightarrow>
               (case JSON_parse block of
                  Some parsedData \<Rightarrow> Inr parsedData
                | None \<Rightarrow>
                    Inl (json_response 500
                          (error_body (js ''Failed to parse AI response. Please try again.''))))
           | None \<Rightarrow>
               Inl (json_response 500
                     (error_body (js ''AI did not return valid JSON. Please try again.'')))))"

subsection \<open>The handler\<close>

text \<open>\<^verbatim>\<open>`${n}`\<close> for a status code: its decimal digits.\<close>

fun decimal :: "nat \<Rightarrow> jstring" where
  "decimal n = (if n < 10 then [48 + n] else decimal (n div 10) @ [48 + n mod 10])"

declare decimal.simps [simp del]

definition type_error :: "world \<Rightarrow> site \<Rightarrow> thrown" where
  "type_error w s = ErrorObj (engine_text w s)"

text \<open>
  \<^verbatim>\<open>data.choices[0].message.content\<close>, then \<^verbatim>\<open>generatedContent.substring(0, 200)\<close>
  for the log, which throws unless the content is a string.
\<close>

definition read_content :: "world \<Rightarrow> json \<Rightarrow> thrown + jstring" where
  "read_content w data =
     (case member (Some data) (js ''choices'') of
        None \<Rightarrow> Inl (type_error w (ReadProperty (js ''choices'')))
      | Some choices \<Rightarrow>
     (case index0 choices of
        None \<Rightarrow> Inl (type_error w ReadIndex0)
      | Some choice \<Rightarrow>
     (case member choice (js ''message'') of
        None \<Rightarrow> Inl (type_error w (ReadProperty (js ''message'')))
      | Some message \<Rightarrow>
     (case member message (js ''content'') of
        None \<Rightarrow> Inl (type_error w (ReadProperty (js ''content'')))
      | Some generatedContent \<Rightarrow>
     (case generatedContent of
        None \<Rightarrow> Inl (type_error w (ReadProperty (js ''substring'')))
      | Some JNull \<Rightarrow> Inl (type_error w (ReadProperty (js ''substring'')))
      | Some (JString text) \<Rightarrow> Inr text
      | Some _ \<Rightarrow> Inl (type_error w CallSubstring))))))"

text \<open>From the call of \<^verbatim>\<open>fetch\<close> to the end of the \<^verbatim>\<open>try\<close> block.\<close>

definition call_model :: "world \<Rightarrow> thrown + response" where
  "call_model w =
     (case fetch_result w of
        Inl e \<Rightarrow> Inl e
      | Inr response \<Rightarrow>
          if \<not> up_ok response
          then
            (case up_text response of
               Inl e \<Rightarrow> Inl e
             | Inr errorText \<Rightarrow>
                 Inr (json_response 500
                       (error_body (js ''OpenAI API error: '' @ decimal (up_status response)))))
          else
     (case up_json response of
        Inl e \<Rightarrow> Inl e
      | Inr data \<Rightarrow>
     (case read_content w data of
        Inl e \<Rightarrow> Inl e
      | Inr generatedContent \<Rightarrow>
     (case coerce generatedContent of
        Inl early \<Rightarrow> Inr early
      | Inr parsedData \<Rightarrow> Inr (json_response 200 parsedData)))))"

text \<open>
  The template of the user prompt converts each of its values to a string, and throws
  when one of them does not convert.
\<close>

definition prompt_converts :: "model_call \<Rightarrow> bool" where
  "prompt_converts c =
     (converts (call_count c) \<and> list_all converts (call_required c)
      \<and> converts (call_skills c) \<and> converts (call_constraints c))"

definition missing_fields_message :: jstring where
  "missing_fields_message =
     js ''Missing required fields: domain, audience, difficulty, time_available_days, mode''"

text \<open>
  The \<^verbatim>\<open>try\<close> block: what it returns or throws, and the outbound calls it made.
\<close>

definition try_block :: "world \<Rightarrow> request \<Rightarrow> (thrown + response) \<times> model_call list" where
  "try_block w req =
     (case req_json req of
        Inl e \<Rightarrow> (Inl e, [])
      | Inr b \<Rightarrow>
          if b = JNull then (Inl (type_error w Destructure), [])
          else
            let domain = get_property b (js ''domain'');
                audience = get_property b (js ''audience'');
                difficulty = get_property b (js ''difficulty'');
                time_available_days = get_property b (js ''time_available_days'');
                skills = get_property b (js ''skills'');
                mode = get_property b (js ''mode'');
                constraints = get_property b (js ''constraints'');
                multi_idea_count =
                  (case get_property b (js ''multi_idea_count'') of None \<Rightarrow> JNumber 3 | Some n \<Rightarrow> n)
            in
              if \<not> truthy domain \<or> \<not> truthy audience \<or> \<not> truthy difficulty
                 \<or> \<not> truthy time_available_days \<or> \<not> truthy mode
              then (Inr (json_response 400 (error_body missing_fields_message)), [])
              else
                let userPrompt =
                      \<lparr>call_count = multi_idea_count,
                       call_required =
                         map the [domain, audience, difficulty, time_available_days, mode],
                       call_skills =
                         (if truthy skills then the skills else JString (js ''Not specified'')),
                       call_constraints =
                         (if truthy constraints then the constraints
                          else JString (js ''None specified''))\<rparr>
                in
                  if \<not> prompt_converts userPrompt then (Inl (type_error w ToPrimitive), [])
                  else (call_model w, [userPrompt]))"

text \<open>
  The function given to \<^verbatim>\<open>serve\<close>: the response and the outbound calls of one
  invocation. \<open>catch_block\<close> is the \<^verbatim>\<open>catch\<close> of the whole handler.
\<close>

definition catch_block :: "thrown \<Rightarrow> response" where
  "catch_block error =
     json_response 500
       (error_body
          (case error of
             ErrorObj message \<Rightarrow> message
           | NonError \<Rightarrow> js ''Unknown error occurred''))"

definition serve :: "world \<Rightarrow> request \<Rightarrow> response \<times> model_call list" where
  "serve w req =
     (if req_method req = js ''OPTIONS'' then (preflight_response, [])
      else
        (case try_block w req of
           (Inr r, calls) \<Rightarrow> (r, calls)
         | (Inl error, calls) \<Rightarrow> (catch_block error, calls)))"

section \<open>The page controller: \<^verbatim>\<open>Index\<close>\<close>

text \<open>The two pieces of state of the page.\<close>

record page =
  ideas :: "json list"
  isLoading :: bool

text \<open>
  What the gateway's answer looks like to the page: status and \<^verbatim>\<open>await response.json()\<close>.
\<close>

record reply =
  reply_status :: nat
  reply_json :: "thrown + json"

definition reply_ok :: "reply \<Rightarrow> bool" where
  "reply_ok r = (200 \<le> reply_status r \<and> reply_status r \<le> 299)"

record browser =
  page_fetch :: "thrown + reply"
  page_engine_text :: "site \<Rightarrow> jstring"

text \<open>
  The message of \<^verbatim>\<open>new Error(v)\<close> is \<^verbatim>\<open>String(v)\<close>: \<open>v\<close> itself when it is a string,
  and otherwise left as the conversion of \<open>v\<close>. When \<open>v\<close> does not convert, what is
  thrown is the \<^verbatim>\<open>TypeError\<close> of the conversion.
\<close>

datatype message = Text jstring | ToStringOf json

datatype caught = ErrorWith message | NotAnError

definition new_Error :: "browser \<Rightarrow> json \<Rightarrow> caught" where
  "new_Error w v =
     (case v of
        JString s \<Rightarrow> ErrorWith (Text s)
      | _ \<Rightarrow>
          if converts v then ErrorWith (ToStringOf v)
          else ErrorWith (Text (page_engine_text w ToPrimitive)))"

fun rethrow :: "thrown \<Rightarrow> caught" where
  "rethrow (ErrorObj m) = ErrorWith (Text m)"
| "rethrow NonError = NotAnError"

text \<open>What the page does, in order.\<close>

datatype action =
    SetIsLoading bool
  | SetIdeas "json list"
  | Fetch json
  | ToastSuccess jstring
  | ToastError message

text \<open>
  The \<^verbatim>\<open>try\<close> block of \<^verbatim>\<open>handleGenerate\<close> after the call of \<^verbatim>\<open>fetch\<close>: the new
  list of ideas, or what is thrown.
\<close>

definition receive :: "browser \<Rightarrow> caught + json list" where
  "receive w =
     (case page_fetch w of
        Inl e \<Rightarrow> Inl (rethrow e)
      | Inr response \<Rightarrow>
          if \<not> reply_ok response
          then
            (case reply_json response of
               Inl e \<Rightarrow> Inl (rethrow e)
             | Inr errorData \<Rightarrow>
                 (case member (Some errorData) (js ''error'') of
                    None \<Rightarrow> Inl (ErrorWith (Text (page_engine_text w (ReadProperty (js ''error'')))))
                  | Some err \<Rightarrow>
                      Inl (new_Error w
                            (if truthy err then the err
                             else JString (js ''Failed to generate ideas'')))))
          else
            (case reply_json response of
               Inl e \<Rightarrow> Inl (rethrow e)
             | Inr data \<Rightarrow>
                 (case member (Some data) (js ''ideas'') of
                    None \<Rightarrow> Inl (ErrorWith (Text (page_engine_text w (ReadProperty (js ''ideas'')))))
                  | Some (Some (JArray xs)) \<Rightarrow> Inr xs
                  | Some _ \<Rightarrow> Inl (new_Error w (JString (js ''Invalid response format''))))))"

definition handleGenerate :: "browser \<Rightarrow> (jstring \<times> json) list \<Rightarrow> action list" where
  "handleGenerate w formData =
     [SetIsLoading True, SetIdeas [],
      Fetch (JObject (formData @ [(js ''multi_idea_count'', JNumber 3)]))]
     @ (case receive w of
          Inr xs \<Rightarrow> [SetIdeas xs, ToastSuccess (js ''3 amazing ideas generated!'')]
        | Inl error \<Rightarrow>
            [ToastError
               (case error of
                  ErrorWith m \<Rightarrow> m
                | NotAnError \<Rightarrow> Text (js ''Failed to generate ideas. Please try again.''))])
     @ [SetIsLoading False]"

fun apply_action :: "page \<Rightarrow> action \<Rightarrow> page" where
  "apply_action p (SetIsLoading b) = p\<lparr>isLoading := b\<rparr>"
| "apply_action p (SetIdeas xs) = p\<lparr>ideas := xs\<rparr>"
| "apply_action p _ = p"

definition run :: "action list \<Rightarrow> page \<Rightarrow> page" where
  "run as p = foldl apply_action p as"

text \<open>
  What the page shows below the form: the results section with one card for each idea,
  numbered from 0, when there are ideas, and the invitation when nothing is loading and
  there is no idea.
\<close>

record view =
  results_section :: "(nat \<times> json) list option"
  empty_state :: bool

definition render :: "page \<Rightarrow> view" where
  "render p =
     \<lparr>results_section =
        (if length (ideas p) > 0 then Some (zip [0 ..< length (ideas p)] (ideas p)) else None),
      empty_state = (\<not> isLoading p \<and> length (ideas p) = 0)\<rparr>"

section \<open>Vocabulary of the properties\<close>

text \<open>All five required fields of a request body are truthy.\<close>

definition required_present :: "json \<Rightarrow> bool" where
  "required_present b =
     (truthy (get_property b (js ''domain'')) \<and> truthy (get_property b (js ''audience''))
      \<and> truthy (get_property b (js ''difficulty''))
      \<and> truthy (get_property b (js ''time_available_days''))
      \<and> truthy (get_property b (js ''mode'')))"

text \<open>
  A valid request: it is not a preflight, its body is a JSON value other than
  \<^verbatim>\<open>null\<close>, and the five required fields are truthy.
\<close>

definition valid_request :: "request \<Rightarrow> bool" where
  "valid_request req =
     (req_method req \<noteq> js ''OPTIONS''
      \<and> (case req_json req of Inl e \<Rightarrow> False | Inr b \<Rightarrow> b \<noteq> JNull \<and> required_present b))"

text \<open>The values that the template of the user prompt converts to strings.\<close>

definition prompt_values :: "json \<Rightarrow> json option list" where
  "prompt_values b =
     [Some (case get_property b (js ''multi_idea_count'') of None \<Rightarrow> JNumber 3 | Some n \<Rightarrow> n),
      get_property b (js ''domain''), get_property b (js ''audience''),
      get_property b (js ''difficulty''), get_property b (js ''time_available_days''),
      get_property b (js ''mode''),
      (if truthy (get_property b (js ''skills'')) then get_property b (js ''skills'')
       else None),
      (if truthy (get_property b (js ''constraints'')) then get_property b (js ''constraints'')
       else None)]"

text \<open>
  The handler goes on to call the model: the request is valid and the values of the
  prompt convert to strings.
\<close>

definition reaches_model :: "request \<Rightarrow> bool" where
  "reaches_model req =
     (valid_request req
      \<and> (case req_json req of
            Inl e \<Rightarrow> False
          | Inr b \<Rightarrow> list_all (\<lambda>v. case v of None \<Rightarrow> True | Some x \<Rightarrow> converts x)
                     (prompt_values b)))"

text \<open>
  The text of the model's reply, when the completion endpoint answers with a 2xx status
  and a body in which \<^verbatim>\<open>choices[0].message.content\<close> is a string.
\<close>

definition model_reply :: "world \<Rightarrow> jstring option" where
  "model_reply w =
     (case fetch_result w of
        Inl e \<Rightarrow> None
      | Inr u \<Rightarrow>
          if \<not> up_ok u then None
          else (case up_json u of
                  Inl e \<Rightarrow> None
                | Inr data \<Rightarrow> (case read_content w data of Inl e \<Rightarrow> None | Inr t \<Rightarrow> Some t)))"

text \<open>The two shapes of a response body: \<^verbatim>\<open>{ideas: [...]}\<close> and \<^verbatim>\<open>{error: "..."}\<close>.\<close>

definition has_ideas_array :: "json \<Rightarrow> bool" where
  "has_ideas_array v =
     (case v of JObject ms \<Rightarrow> isArray (get_property v (js ''ideas'')) | _ \<Rightarrow> False)"

definition has_error_string :: "json \<Rightarrow> bool" where
  "has_error_string v =
     (case get_property v (js ''error'') of Some (JString m) \<Rightarrow> True | _ \<Rightarrow> False)"

text \<open>
  The response body was recovered by the brace match: the first attempt on the reply
  failed, and the matched block parsed.
\<close>

definition recovered_by_match :: "world \<Rightarrow> request \<Rightarrow> bool" where
  "recovered_by_match w req =
     (reaches_model req
      \<and> (case model_reply w of
            None \<Rightarrow> False
          | Some t \<Rightarrow>
              direct_parse t = None
              \<and> (case jsonMatch t of None \<Rightarrow> False | Some block \<Rightarrow> JSON_parse block \<noteq> None)))"


text \<open>The error toasts among the actions of the page.\<close>

fun error_toasts :: "action list \<Rightarrow> message list" where
  "error_toasts [] = []"
| "error_toasts (ToastError m # as) = m # error_toasts as"
| "error_toasts (a # as) = error_toasts as"

subsection \<open>Sample requests and worlds\<close>

definition post :: "json \<Rightarrow> request" where
  "post b = \<lparr>req_method = js ''POST'', req_json = Inr b\<rparr>"

text \<open>The request of the specification's end-to-end scenario.\<close>

definition fitness_request :: json where
  "fitness_request =
     JObject [(js ''domain'', JString (js ''fitness'')),
              (js ''audience'', JString (js ''students'')),
              (js ''difficulty'', JString (js ''beginner'')),
              (js ''time_available_days'', JNumber 3),
              (js ''mode'', JString (js ''hackathon''))]"

text \<open>A world in which the completion endpoint answers with the given status and body.\<close>

definition answering :: "nat \<Rightarrow> thrown + jstring \<Rightarrow> thrown + json \<Rightarrow> world" where
  "answering st txt data =
     \<lparr>fetch_result = Inr \<lparr>up_status = st, up_text = txt, up_json = data\<rparr>,
      engine_text = (\<lambda>s. js ''TypeError'')\<rparr>"

text \<open>A world in which the model replies with the given text.\<close>

definition replying :: "jstring \<Rightarrow> world" where
  "replying t =
     answering 200 (Inr [])
       (Inr (JObject [(js ''choices'',
              JArray [JObject [(js ''message'', JObject [(js ''content'', JString t)])]])]))"

text \<open>A browser in which the gateway answers with the given status and body.\<close>

definition gateway_answers :: "nat \<Rightarrow> thrown + json \<Rightarrow> browser" where
  "gateway_answers st data =
     \<lparr>page_fetch = Inr \<lparr>reply_status = st, reply_json = data\<rparr>,
      page_engine_text = (\<lambda>s. js ''TypeError'')\<rparr>"

definition initial_page :: page where
  "initial_page = \<lparr>ideas = [], isLoading = False\<rparr>"

subsection \<open>Sample replies of the model\<close>

text \<open>The fenced reply \<^verbatim>\<open>```json\n{"ideas":[]}\n```\<close>.\<close>

definition fenced_reply :: jstring where
  "fenced_reply = js ''```json'' @ [10] @ js ''{\"ideas\":[]}'' @ [10] @ js ''```''"

definition empty_ideas :: json where
  "empty_ideas = JObject [(js ''ideas'', JArray [])]"

text \<open>Prose around a JSON object, without braces in the prose and with.\<close>

definition prose_reply :: jstring where
  "prose_reply = js ''Sure! '' @ js ''{\"ideas\":[]}'' @ js '' Hope that helps!''"

definition braces_in_prose_reply :: jstring where
  "braces_in_prose_reply = js ''Sure {ok}! '' @ js ''{\"ideas\":[]}'' @ js '' Hope that helps!''"

text \<open>A reply that is a JSON object without \<^verbatim>\<open>ideas\<close> and without \<^verbatim>\<open>error\<close>.\<close>

definition foo_reply :: jstring where
  "foo_reply = js ''{\"foo\":1}''"

definition preflight :: request where
  "preflight = \<lparr>req_method = js ''OPTIONS'', req_json = Inl NonError\<rparr>"

text \<open>A reply without any brace.\<close>

definition plain_reply :: jstring where
  "plain_reply = js ''I cannot help with that.''"




text \<open>A page that shows one idea from an earlier generation.\<close>

definition earlier_page :: page where
  "earlier_page = \<lparr>ideas = [JObject [(js ''title'', JString (js ''Fit Buddy''))]], isLoading = False\<rparr>"

subsection \<open>Notions for the proofs about \<^verbatim>\<open>JSON.parse\<close>\<close>

text \<open>An opening brace, and later a closing brace.\<close>

definition braces :: jstring where
  "braces = [cu CHR ''{'', cu CHR ''}'']"

text \<open>
  What one step of the lexer may emit: a brace token only for the brace it reads, and
  nothing after an opening brace.
\<close>

definition brace_tokens :: "nat \<Rightarrow> token list \<Rightarrow> bool" where
  "brace_tokens c ts =
     ((TLBrace \<in> set ts \<longrightarrow> c = cu CHR ''{'') \<and> (TRBrace \<in> set ts \<longrightarrow> c = cu CHR ''}'')
      \<and> (\<forall>r. ts = TLBrace # r \<longrightarrow> r = []))"

text \<open>The token that the lexer holds while it reads a literal name is not a brace.\<close>

fun literal_state :: "lexstate \<Rightarrow> bool" where
  "literal_state (LLit rest t) = (t \<noteq> TLBrace \<and> t \<noteq> TRBrace)"
| "literal_state _ = True"

text \<open>The frame at the bottom of the stack is an object.\<close>

definition bottom_object :: "frame list \<Rightarrow> bool" where
  "bottom_object st = (case last st of InObj ms k \<Rightarrow> True | InArr es \<Rightarrow> False)"

fun is_object :: "json \<Rightarrow> bool" where
  "is_object (JObject ms) = True"
| "is_object _ = False"

fun is_finished :: "expect \<Rightarrow> bool" where
  "is_finished (Finished v) = True"
| "is_finished _ = False"

section \<open>Evaluation and basic facts\<close>

lemma remove_all_Nil: "remove_all pat [] = []"
  by (simp add: remove_all.simps)

lemma remove_all_Cons:
  "remove_all pat (c # cs) =
     (if pat = [] then c # cs
      else if take (length pat) (c # cs) = pat
      then remove_all pat (skip_newline (drop (length pat) (c # cs)))
      else c # remove_all pat cs)"
  by (subst remove_all.simps) simp

lemmas text_eval =
  js_def cu_def cleanContent_def trim_def is_space_def fence_def json_fence_def
  skip_newline_def jsonMatch_def remove_all_Nil remove_all_Cons Let_def

lemmas parse_eval =
  JSON_parse_def default_step_def is_json_ws_def is_digit_def hex_value_def num_value_def
  end_number_def is_exp_mark_def escape_step_def value_step_def close_step_def key_step_def

lemmas coerce_eval =
  coerce_def direct_parse_def valid_structure_def json_response_def error_body_def

lemma cors_in_json_headers:
  "map_of json_headers (js ''Access-Control-Allow-Origin'') = Some (js ''*'')"
  "map_of json_headers (js ''Access-Control-Allow-Headers'') =
     Some (js ''authorization, x-client-info, apikey, content-type'')"
  by (simp_all add: json_headers_def corsHeaders_def js_def cu_def)

lemma cors_in_corsHeaders:
  "map_of corsHeaders (js ''Access-Control-Allow-Origin'') = Some (js ''*'')"
  "map_of corsHeaders (js ''Access-Control-Allow-Headers'') =
     Some (js ''authorization, x-client-info, apikey, content-type'')"
  by (simp_all add: corsHeaders_def js_def cu_def)

lemma coerce_headers: "coerce t = Inl r \<Longrightarrow> headers r = json_headers"
  by (auto simp: coerce_def json_response_def split: option.splits)

lemma call_model_headers: "call_model w = Inr r \<Longrightarrow> headers r = json_headers"
  by (auto simp: call_model_def json_response_def dest: coerce_headers
           split: sum.splits if_splits)

lemma try_block_headers: "try_block w req = (Inr r, calls) \<Longrightarrow> headers r = json_headers"
  by (auto simp: try_block_def Let_def json_response_def dest: call_model_headers
           split: sum.splits if_splits)

lemma serve_headers:
  "headers (fst (serve w req)) = corsHeaders \<or> headers (fst (serve w req)) = json_headers"
  by (auto simp: serve_def preflight_response_def catch_block_def json_response_def
           dest: try_block_headers split: sum.splits prod.splits)

text \<open>
  Claim C7. Every response of the gateway carries the cross-origin headers
  \<^verbatim>\<open>Access-Control-Allow-Origin: *\<close> and the allow-list of request headers: the
  preflight response to \<^verbatim>\<open>OPTIONS\<close>, which has status 200 and an empty body, and every
  success and error response of every branch.
\<close>

theorem cors_headers_on_every_response:
  "map_of (headers (fst (serve w req))) (js ''Access-Control-Allow-Origin'') = Some (js ''*'')
   \<and> map_of (headers (fst (serve w req))) (js ''Access-Control-Allow-Headers'')
       = Some (js ''authorization, x-client-info, apikey, content-type'')
   \<and> (req_method req = js ''OPTIONS'' \<longrightarrow>
        status (fst (serve w req)) = 200 \<and> body (fst (serve w req)) = None)"
  using serve_headers [of w req] cors_in_json_headers cors_in_corsHeaders
  by (auto simp: serve_def preflight_response_def)


lemma js_neq_OPTIONS: "js ''POST'' \<noteq> js ''OPTIONS''"
  by (simp add: js_def cu_def)

lemma valid_fitness: "valid_request (post fitness_request)"
  by (simp add: valid_request_def post_def fitness_request_def required_present_def
        rounds_to_zero_def js_def cu_def)

lemma reaches_fitness: "reaches_model (post fitness_request)"
  using valid_fitness
  by (simp add: reaches_model_def post_def fitness_request_def prompt_values_def js_def cu_def)

lemma model_reply_replying: "model_reply (replying t) = Some t"
  by (simp add: model_reply_def replying_def answering_def up_ok_def read_content_def
        js_def cu_def)

lemma call_model_reply:
  "model_reply w = Some t \<Longrightarrow>
   call_model w = (case coerce t of Inl early \<Rightarrow> Inr early | Inr v \<Rightarrow> Inr (json_response 200 v))"
  by (auto simp: model_reply_def call_model_def split: sum.splits if_splits)

lemma truthy_Some: "truthy x \<Longrightarrow> \<exists>v. x = Some v"
  by (cases x) simp_all

text \<open>
  After the validation the handler either throws while it builds the prompt, or calls the
  model once.
\<close>

lemma try_block_valid:
  assumes "req_json req = Inr b" and "b \<noteq> JNull" and "required_present b"
  shows "try_block w req =
           (if list_all (\<lambda>v. case v of None \<Rightarrow> True | Some x \<Rightarrow> converts x) (prompt_values b)
            then (call_model w, snd (try_block w req))
            else (Inl (type_error w ToPrimitive), []))
         \<and> (list_all (\<lambda>v. case v of None \<Rightarrow> True | Some x \<Rightarrow> converts x) (prompt_values b)
              \<longrightarrow> length (snd (try_block w req)) = 1)"
proof -
  from assms(3) obtain d a f t m where v:
    "get_property b (js ''domain'') = Some d" "get_property b (js ''audience'') = Some a"
    "get_property b (js ''difficulty'') = Some f"
    "get_property b (js ''time_available_days'') = Some t"
    "get_property b (js ''mode'') = Some m"
    unfolding required_present_def by (metis truthy_Some)
  from assms(3) v have t: "truthy (Some d)" "truthy (Some a)" "truthy (Some f)"
    "truthy (Some t)" "truthy (Some m)"
    by (simp_all add: required_present_def)
  have s: "truthy x \<Longrightarrow> converts (the x) = (case x of None \<Rightarrow> True | Some y \<Rightarrow> converts y)" for x
    by (cases x) simp_all
  show ?thesis
    using assms(1,2) v t
    by (simp add: try_block_def Let_def prompt_converts_def prompt_values_def s js_def)
qed

lemma serve_reaches_model:
  assumes "reaches_model req"
  shows "fst (serve w req) = (case call_model w of Inr r \<Rightarrow> r | Inl error \<Rightarrow> catch_block error)"
    and "length (snd (serve w req)) = 1"
proof -
  from assms obtain b where b: "req_json req = Inr b" "b \<noteq> JNull" "required_present b"
    and c: "list_all (\<lambda>v. case v of None \<Rightarrow> True | Some x \<Rightarrow> converts x) (prompt_values b)"
    and m: "req_method req \<noteq> js ''OPTIONS''"
    by (auto simp: reaches_model_def valid_request_def split: sum.splits)
  from try_block_valid [OF b, of w] c
  have t: "try_block w req = (call_model w, snd (try_block w req))"
    and l: "length (snd (try_block w req)) = 1"
    by simp_all
  from m have "serve w req = (case try_block w req of
           (Inr r, calls) \<Rightarrow> (r, calls)
         | (Inl error, calls) \<Rightarrow> (catch_block error, calls))"
    by (simp add: serve_def)
  also have "\<dots> = (case call_model w of
           Inr r \<Rightarrow> (r, snd (try_block w req))
         | Inl error \<Rightarrow> (catch_block error, snd (try_block w req)))"
    by (subst t) (simp split: sum.splits)
  finally have s: "serve w req = (case call_model w of
           Inr r \<Rightarrow> (r, snd (try_block w req))
         | Inl error \<Rightarrow> (catch_block error, snd (try_block w req)))" .
  from s show "fst (serve w req)
      = (case call_model w of Inr r \<Rightarrow> r | Inl error \<Rightarrow> catch_block error)"
    by (simp split: sum.splits)
  from s l show "length (snd (serve w req)) = 1"
    by (simp split: sum.splits)
qed

lemma serve_unconvertible:
  assumes "valid_request req" and "\<not> reaches_model req"
  shows "serve w req = (catch_block (type_error w ToPrimitive), [])"
proof -
  from assms obtain b where b: "req_json req = Inr b" "b \<noteq> JNull" "required_present b"
    and c: "\<not> list_all (\<lambda>v. case v of None \<Rightarrow> True | Some x \<Rightarrow> converts x) (prompt_values b)"
    and m: "req_method req \<noteq> js ''OPTIONS''"
    by (auto simp: reaches_model_def valid_request_def split: sum.splits)
  from try_block_valid [OF b, of w] c
  have "try_block w req = (Inl (type_error w ToPrimitive), [])"
    by simp
  with m show ?thesis by (simp add: serve_def)
qed

lemma serve_reply:
  assumes "reaches_model req" "model_reply w = Some t"
  shows "fst (serve w req) = (case coerce t of Inl early \<Rightarrow> early | Inr v \<Rightarrow> json_response 200 v)"
  using assms by (simp add: serve_reaches_model call_model_reply split: sum.splits)

lemma decimal_digits: "list_all is_digit (decimal n)"
proof (induction n rule: decimal.induct)
  case (1 n)
  show ?case
  proof (cases "n < 10")
    case True
    then show ?thesis by (subst decimal.simps) (simp add: is_digit_def)
  next
    case False
    have "n mod 10 < 10" by simp
    then have "is_digit (48 + n mod 10)" unfolding is_digit_def by linarith
    with False "1.IH" show ?thesis by (subst decimal.simps) simp
  qed
qed

text \<open>
  Claim C6, amended. When the completion endpoint answers with a status outside 200 to
  299 and the text of its body can be read, the gateway responds 500 with the body
  \<^verbatim>\<open>{"error": "OpenAI API error: <status>"}\<close>, the status written in decimal digits and
  nothing else after the colon; the response is the same whatever the text and the JSON
  of the provider's body are, so that nothing of that body reaches the caller. When the
  read of the text rejects, the response is the 500 of the handler's \<^verbatim>\<open>catch\<close>, with
  the message of what the read threw.
\<close>

theorem upstream_error_mapping:
  assumes "reaches_model req" and "fetch_result w = Inr u" and "\<not> up_ok u"
  shows "(\<forall>errorText. up_text u = Inr errorText \<longrightarrow>
            fst (serve w req)
              = json_response 500
                  (error_body (js ''OpenAI API error: '' @ decimal (up_status u)))
            \<and> (\<forall>txt data.
                  fst (serve (w\<lparr>fetch_result := Inr (u\<lparr>up_text := Inr txt, up_json := data\<rparr>)\<rparr>)
                         req)
                    = fst (serve w req)))
         \<and> list_all is_digit (decimal (up_status u))
         \<and> (\<forall>e. up_text u = Inl e \<longrightarrow> fst (serve w req) = catch_block e)"
  using assms by (simp add: serve_reaches_model call_model_def up_ok_def decimal_digits)

theorem upstream_error_mapping_witness:
  "reaches_model (post fitness_request)
   \<and> fetch_result (answering 503 (Inr (js ''quota exceeded for key'')) (Inl NonError))
       = Inr \<lparr>up_status = 503, up_text = Inr (js ''quota exceeded for key''),
              up_json = Inl NonError\<rparr>
   \<and> \<not> up_ok \<lparr>up_status = 503, up_text = Inr (js ''quota exceeded for key''),
                 up_json = Inl NonError\<rparr>
   \<and> fst (serve (answering 503 (Inr (js ''quota exceeded for key'')) (Inl NonError))
              (post fitness_request))
       = json_response 500 (error_body (js ''OpenAI API error: 503''))"
proof -
  let ?u = "\<lparr>up_status = 503, up_text = Inr (js ''quota exceeded for key''),
             up_json = Inl NonError\<rparr>"
  let ?w = "answering 503 (Inr (js ''quota exceeded for key'')) (Inl NonError)"
  have f: "fetch_result ?w = Inr ?u" by (simp add: answering_def)
  have n: "\<not> up_ok ?u" by (simp add: up_ok_def)
  have t: "up_text ?u = Inr (js ''quota exceeded for key'')" by simp
  have d: "js ''OpenAI API error: '' @ decimal 503 = js ''OpenAI API error: 503''"
    by (simp add: decimal.simps js_def cu_def)
  from upstream_error_mapping [OF reaches_fitness f n] t
  have "fst (serve ?w (post fitness_request))
          = json_response 500 (error_body (js ''OpenAI API error: '' @ decimal 503))"
    by simp
  with d have "fst (serve ?w (post fitness_request))
          = json_response 500 (error_body (js ''OpenAI API error: 503''))"
    by simp
  with reaches_fitness f n show ?thesis by blast
qed

text \<open>
  The endpoint answers 503 and the read of its body rejects: the response is the 500 of
  the handler's \<^verbatim>\<open>catch\<close> with the message of the rejection, not
  \<^verbatim>\<open>OpenAI API error: 503\<close>.
\<close>

theorem upstream_error_mapping_counterexample:
  "reaches_model (post fitness_request)
   \<and> fetch_result (answering 503 (Inl (ErrorObj (js ''error reading a body from connection'')))
                      (Inl NonError))
       = Inr \<lparr>up_status = 503,
              up_text = Inl (ErrorObj (js ''error reading a body from connection'')),
              up_json = Inl NonError\<rparr>
   \<and> fst (serve (answering 503 (Inl (ErrorObj (js ''error reading a body from connection'')))
                      (Inl NonError))
              (post fitness_request))
       = json_response 500 (error_body (js ''error reading a body from connection''))
   \<and> json_response 500 (error_body (js ''error reading a body from connection''))
       \<noteq> json_response 500 (error_body (js ''OpenAI API error: 503''))"
proof -
  let ?w = "answering 503 (Inl (ErrorObj (js ''error reading a body from connection'')))
              (Inl NonError)"
  have f: "fetch_result ?w
       = Inr \<lparr>up_status = 503,
              up_text = Inl (ErrorObj (js ''error reading a body from connection'')),
              up_json = Inl NonError\<rparr>"
    by (simp add: answering_def)
  have "call_model ?w = Inl (ErrorObj (js ''error reading a body from connection''))"
    by (simp add: call_model_def answering_def up_ok_def)
  then have s: "fst (serve ?w (post fitness_request))
       = json_response 500 (error_body (js ''error reading a body from connection''))"
    by (simp add: serve_reaches_model [OF reaches_fitness] catch_block_def)
  have d: "json_response 500 (error_body (js ''error reading a body from connection''))
       \<noteq> json_response 500 (error_body (js ''OpenAI API error: 503''))"
    by (simp add: json_response_def error_body_def js_def cu_def)
  from reaches_fitness f s d show ?thesis by blast
qed

lemma fenced_reply_clean: "cleanContent fenced_reply = js ''{\"ideas\":[]}''"
  by (simp add: fenced_reply_def text_eval)

lemma parse_empty_ideas: "JSON_parse (js ''{\"ideas\":[]}'') = Some empty_ideas"
  by (simp add: empty_ideas_def js_def cu_def parse_eval)

lemma valid_empty_ideas: "valid_structure empty_ideas"
  by (simp add: valid_structure_def empty_ideas_def)

lemma fenced_reply_coerce: "coerce fenced_reply = Inr empty_ideas"
  by (simp add: coerce_def direct_parse_def fenced_reply_clean parse_empty_ideas valid_empty_ideas)

text \<open>
  Claim C3. When the model's reply is exactly \<^verbatim>\<open>```json\n{"ideas":[]}\n```\<close>, stripping
  the fences and the white space around leaves \<^verbatim>\<open>{"ideas":[]}\<close>, the direct parse
  succeeds, and the gateway responds 200 with the body \<^verbatim>\<open>{"ideas": []}\<close>.
\<close>

theorem fenced_reply_round_trip:
  assumes "reaches_model req" and "model_reply w = Some fenced_reply"
  shows "cleanContent fenced_reply = js ''{\"ideas\":[]}''
       \<and> JSON_parse (cleanContent fenced_reply) = Some empty_ideas
       \<and> fst (serve w req) = json_response 200 empty_ideas"
  using assms
  by (simp add: serve_reply fenced_reply_coerce fenced_reply_clean parse_empty_ideas)

theorem fenced_reply_round_trip_witness:
  "reaches_model (post fitness_request)
   \<and> model_reply (replying fenced_reply) = Some fenced_reply
   \<and> status (fst (serve (replying fenced_reply) (post fitness_request))) = 200
   \<and> body (fst (serve (replying fenced_reply) (post fitness_request)))
       = Some (JObject [(js ''ideas'', JArray [])])"
  using fenced_reply_round_trip [OF reaches_fitness model_reply_replying]
        reaches_fitness model_reply_replying
  by (simp add: json_response_def empty_ideas_def)

theorem cors_headers_on_every_response_witness:
  "req_method \<lparr>req_method = js ''OPTIONS'', req_json = Inl NonError\<rparr> = js ''OPTIONS''
   \<and> fst (serve (replying []) \<lparr>req_method = js ''OPTIONS'', req_json = Inl NonError\<rparr>)
       = \<lparr>status = 200, headers = corsHeaders, body = None\<rparr>
   \<and> map_of corsHeaders (js ''Access-Control-Allow-Origin'') = Some (js ''*'')"
  using cors_headers_on_every_response
          [of "replying []" "\<lparr>req_method = js ''OPTIONS'', req_json = Inl NonError\<rparr>"]
  by (simp add: serve_def preflight_response_def)

lemma call_model_status: "call_model w = Inr r \<Longrightarrow> status r = 200 \<or> status r = 500"
  by (auto simp: call_model_def coerce_def json_response_def
           split: sum.splits if_splits option.splits)

lemma serve_preflight:
  "req_method req = js ''OPTIONS'' \<Longrightarrow> serve w req = (preflight_response, [])"
  by (simp add: serve_def)

lemma serve_unreadable:
  "req_method req \<noteq> js ''OPTIONS'' \<Longrightarrow> req_json req = Inl e \<Longrightarrow>
   serve w req = (catch_block e, [])"
  by (simp add: serve_def try_block_def)

lemma serve_null:
  "req_method req \<noteq> js ''OPTIONS'' \<Longrightarrow> req_json req = Inr JNull \<Longrightarrow>
   serve w req = (catch_block (type_error w Destructure), [])"
  by (simp add: serve_def try_block_def)

lemma serve_validation:
  assumes "req_method req \<noteq> js ''OPTIONS''" and "req_json req = Inr b" and "b \<noteq> JNull"
    and "\<not> required_present b"
  shows "serve w req = (json_response 400 (error_body missing_fields_message), [])"
proof -
  from assms(4) have "\<not> truthy (get_property b (js ''domain''))
      \<or> \<not> truthy (get_property b (js ''audience''))
      \<or> \<not> truthy (get_property b (js ''difficulty''))
      \<or> \<not> truthy (get_property b (js ''time_available_days''))
      \<or> \<not> truthy (get_property b (js ''mode''))"
    by (simp add: required_present_def)
  with assms(1-3) show ?thesis
    by (simp add: serve_def try_block_def Let_def)
qed

lemma status_catch_block: "status (catch_block e) = 500"
  by (simp add: catch_block_def json_response_def)

lemma serve_status_400:
  assumes "status (fst (serve w req)) = 400"
  shows "req_method req \<noteq> js ''OPTIONS''
         \<and> (\<exists>b. req_json req = Inr b \<and> b \<noteq> JNull \<and> \<not> required_present b)"
proof -
  from assms have m: "req_method req \<noteq> js ''OPTIONS''"
    by (auto simp: serve_preflight preflight_response_def)
  show ?thesis
  proof (cases "req_json req")
    case (Inl e)
    with assms m show ?thesis
      by (simp add: serve_unreadable status_catch_block)
  next
    case (Inr b)
    show ?thesis
    proof (cases "b = JNull")
      case True
      with Inr assms m show ?thesis
        by (simp add: serve_null status_catch_block)
    next
      case False
      show ?thesis
      proof (cases "required_present b")
        case True
        with Inr m False have v: "valid_request req" by (simp add: valid_request_def)
        show ?thesis
        proof (cases "reaches_model req")
          case r: True
          show ?thesis
          proof (cases "call_model w")
            case (Inl e)
            with serve_reaches_model(1) [OF r, of w] assms show ?thesis
              by (simp add: status_catch_block)
          next
            case (Inr r')
            with serve_reaches_model(1) [OF r, of w] assms call_model_status [OF Inr]
            show ?thesis by simp
          qed
        next
          case False
          from serve_unconvertible [OF v False, of w] assms show ?thesis
            by (simp add: status_catch_block)
        qed
      next
        case nr: False
        with Inr m False show ?thesis by simp
      qed
    qed
  qed
qed

text \<open>
  Claim C2, amended. The gateway returns 400 with the body
  \<^verbatim>\<open>{"error": "Missing required fields: domain, audience, difficulty, time_available_days, mode"}\<close>
  if and only if the request is not a preflight, its body is a JSON value other than
  \<^verbatim>\<open>null\<close>, and at least one of the five required fields is falsy in it; no other
  response has status 400; with that response no outbound call is made; and a valid
  request, whose five fields are all truthy, is never answered 400.
\<close>

theorem missing_fields_400:
  "(fst (serve w req) = json_response 400 (error_body missing_fields_message))
     = (req_method req \<noteq> js ''OPTIONS''
        \<and> (\<exists>b. req_json req = Inr b \<and> b \<noteq> JNull \<and> \<not> required_present b))
   \<and> (status (fst (serve w req)) = 400)
       = (fst (serve w req) = json_response 400 (error_body missing_fields_message))
   \<and> (status (fst (serve w req)) = 400 \<longrightarrow> snd (serve w req) = [])
   \<and> (valid_request req \<longrightarrow> status (fst (serve w req)) \<noteq> 400)"
proof -
  let ?rhs = "req_method req \<noteq> js ''OPTIONS''
        \<and> (\<exists>b. req_json req = Inr b \<and> b \<noteq> JNull \<and> \<not> required_present b)"
  let ?r400 = "json_response 400 (error_body missing_fields_message)"
  have s: "status ?r400 = 400" by (simp add: json_response_def)
  have a: "?rhs \<Longrightarrow> serve w req = (?r400, [])"
    using serve_validation [of req _ w] by blast
  have b: "status (fst (serve w req)) = 400 \<Longrightarrow> ?rhs"
    by (rule serve_status_400)
  have c: "fst (serve w req) = ?r400 \<Longrightarrow> status (fst (serve w req)) = 400"
    using s by simp
  have 1: "(fst (serve w req) = ?r400) = ?rhs"
    using a b c by (metis fst_conv)
  have 2: "(status (fst (serve w req)) = 400) = (fst (serve w req) = ?r400)"
    using a b c by (metis fst_conv)
  have 3: "status (fst (serve w req)) = 400 \<longrightarrow> snd (serve w req) = []"
    using a b by (metis snd_conv)
  have 4: "valid_request req \<longrightarrow> status (fst (serve w req)) \<noteq> 400"
  proof
    assume r: "valid_request req"
    show "status (fst (serve w req)) \<noteq> 400"
    proof
      assume "status (fst (serve w req)) = 400"
      from b [OF this] r show False
        by (auto simp: valid_request_def)
    qed
  qed
  from 1 2 3 4 show ?thesis by blast
qed

theorem missing_fields_400_witness:
  "fst (serve (replying fenced_reply) (post (JObject [(js ''domain'', JString (js ''fitness''))])))
     = json_response 400 (error_body missing_fields_message)
   \<and> snd (serve (replying fenced_reply) (post (JObject [(js ''domain'', JString (js ''fitness''))])))
       = []
   \<and> valid_request (post fitness_request)
   \<and> status (fst (serve (replying fenced_reply) (post fitness_request))) \<noteq> 400"
proof -
  let ?b = "JObject [(js ''domain'', JString (js ''fitness''))]"
  have m: "req_method (post ?b) \<noteq> js ''OPTIONS''"
    by (simp add: post_def js_def cu_def)
  have j: "req_json (post ?b) = Inr ?b \<and> ?b \<noteq> JNull \<and> \<not> required_present ?b"
    by (simp add: post_def required_present_def js_def cu_def)
  from missing_fields_400 [of "replying fenced_reply" "post ?b"] m j
  have "fst (serve (replying fenced_reply) (post ?b))
          = json_response 400 (error_body missing_fields_message)
        \<and> snd (serve (replying fenced_reply) (post ?b)) = []"
    by (metis json_response_def response.select_convs(1))
  moreover from missing_fields_400 [of "replying fenced_reply" "post fitness_request"]
    valid_fitness
  have "status (fst (serve (replying fenced_reply) (post fitness_request))) \<noteq> 400"
    by blast
  ultimately show ?thesis using valid_fitness by simp
qed

text \<open>
  A request whose body is the JSON value \<^verbatim>\<open>null\<close> has none of the five fields, and the
  answer is the 500 of the handler's \<^verbatim>\<open>catch\<close>, not the 400.
\<close>

theorem missing_fields_null_body_counterexample:
  "\<not> truthy (get_property JNull (js ''domain''))
   \<and> req_method (post JNull) = js ''POST''
   \<and> req_json (post JNull) = Inr JNull
   \<and> status (fst (serve (replying fenced_reply) (post JNull))) = 500
   \<and> snd (serve (replying fenced_reply) (post JNull)) = []"
  by (simp add: post_def serve_null js_neq_OPTIONS status_catch_block)

section \<open>The brace match\<close>

lemma open_neq_close: "cu CHR ''{'' \<noteq> cu CHR ''}''"
  by (simp add: cu_def)

lemma dropWhile_keeps_tail:
  "\<not> P x \<Longrightarrow> set (x # r) \<subseteq> set (dropWhile P (a @ x # r))"
  by (induction a) auto

lemma jsonMatch_None_iff:
  "(jsonMatch t = None)
     = (\<nexists>a b c. t = a @ [cu CHR ''{''] @ b @ [cu CHR ''}''] @ c)"
proof -
  let ?f = "dropWhile (\<lambda>c. c \<noteq> cu CHR ''{'') t"
  have n: "(jsonMatch t = None) = (cu CHR ''}'' \<notin> set ?f)"
    by (auto simp: jsonMatch_def Let_def dropWhile_eq_Nil_conv)
  show ?thesis
  proof
    assume "jsonMatch t = None"
    with n have no: "cu CHR ''}'' \<notin> set ?f" by simp
    show "\<nexists>a b c. t = a @ [cu CHR ''{''] @ b @ [cu CHR ''}''] @ c"
    proof
      assume "\<exists>a b c. t = a @ [cu CHR ''{''] @ b @ [cu CHR ''}''] @ c"
      then obtain a b c where t: "t = a @ cu CHR ''{'' # (b @ cu CHR ''}'' # c)" by auto
      have "set (cu CHR ''{'' # (b @ cu CHR ''}'' # c)) \<subseteq> set ?f"
        unfolding t by (rule dropWhile_keeps_tail) simp
      with no show False by auto
    qed
  next
    assume none: "\<nexists>a b c. t = a @ [cu CHR ''{''] @ b @ [cu CHR ''}''] @ c"
    have "cu CHR ''}'' \<notin> set ?f"
    proof
      assume i: "cu CHR ''}'' \<in> set ?f"
      have ne: "?f \<noteq> []"
      proof
        assume "?f = []"
        with i show False by simp
      qed
      from hd_dropWhile [OF ne] have "hd ?f = cu CHR ''{''" by simp
      with ne obtain r where f: "?f = cu CHR ''{'' # r"
        by (cases ?f) simp_all
      with i open_neq_close have "cu CHR ''}'' \<in> set r" by auto
      then obtain b c where r: "r = b @ cu CHR ''}'' # c" by (auto dest: split_list)
      have "t = takeWhile (\<lambda>c. c \<noteq> cu CHR ''{'') t @ ?f" by simp
      with f r have "t = takeWhile (\<lambda>c. c \<noteq> cu CHR ''{'') t @ [cu CHR ''{''] @ b @ [cu CHR ''}''] @ c"
        by simp
      with none show False by blast
    qed
    with n show "jsonMatch t = None" by simp
  qed
qed

lemma jsonMatch_greedy:
  assumes "cu CHR ''{'' \<notin> set lead" and "cu CHR ''}'' \<notin> set trail"
  shows "jsonMatch (lead @ [cu CHR ''{''] @ mid @ [cu CHR ''}''] @ trail)
           = Some ([cu CHR ''{''] @ mid @ [cu CHR ''}''])"
proof -
  have l: "x \<noteq> cu CHR ''{''" if "x \<in> set lead" for x
    using that assms(1) by auto
  have r: "x \<noteq> cu CHR ''}''" if "x \<in> set (rev trail)" for x
    using that assms(2) by auto
  have 1: "dropWhile (\<lambda>c. c \<noteq> cu CHR ''{'') (lead @ [cu CHR ''{''] @ mid @ [cu CHR ''}''] @ trail)
             = cu CHR ''{'' # mid @ cu CHR ''}'' # trail"
    using dropWhile_append2 [of lead "\<lambda>c. c \<noteq> cu CHR ''{''", OF l] by simp
  have "dropWhile (\<lambda>c. c \<noteq> cu CHR ''}'') (rev trail @ cu CHR ''}'' # rev mid @ [cu CHR ''{''])
             = cu CHR ''}'' # rev mid @ [cu CHR ''{'']"
    using dropWhile_append2 [of "rev trail" "\<lambda>c. c \<noteq> cu CHR ''}''", OF r] by simp
  then have 2: "dropWhile (\<lambda>c. c \<noteq> cu CHR ''}'') (rev (cu CHR ''{'' # mid @ cu CHR ''}'' # trail))
             = cu CHR ''}'' # rev mid @ [cu CHR ''{'']"
    by simp
  show ?thesis
    unfolding jsonMatch_def Let_def 1 2 by simp
qed

section \<open>The recovery\<close>

lemma coerce_no_match:
  "direct_parse t = None \<Longrightarrow> jsonMatch t = None \<Longrightarrow>
   coerce t = Inl (json_response 500
                    (error_body (js ''AI did not return valid JSON. Please try again.'')))"
  by (simp add: coerce_def)

lemma coerce_bad_block:
  "direct_parse t = None \<Longrightarrow> jsonMatch t = Some block \<Longrightarrow> JSON_parse block = None \<Longrightarrow>
   coerce t = Inl (json_response 500
                    (error_body (js ''Failed to parse AI response. Please try again.'')))"
  by (simp add: coerce_def)

lemma coerce_good_block:
  "direct_parse t = None \<Longrightarrow> jsonMatch t = Some block \<Longrightarrow> JSON_parse block = Some v \<Longrightarrow>
   coerce t = Inr v"
  by (simp add: coerce_def)

lemma coerce_direct: "direct_parse t = Some v \<Longrightarrow> coerce t = Inr v"
  by (simp add: coerce_def)

lemma plain_reply_direct: "direct_parse plain_reply = None"
  by (simp add: direct_parse_def plain_reply_def text_eval parse_eval)

lemma plain_reply_match: "jsonMatch plain_reply = None"
  by (simp add: plain_reply_def text_eval)

lemma braces_in_prose_clean_parse: "JSON_parse (cleanContent braces_in_prose_reply) = None"
  by (simp add: braces_in_prose_reply_def text_eval parse_eval)

lemma braces_in_prose_direct: "direct_parse braces_in_prose_reply = None"
  by (simp add: direct_parse_def braces_in_prose_clean_parse)

lemma braces_in_prose_match:
  "jsonMatch braces_in_prose_reply = Some (js ''{ok}! {\"ideas\":[]}'')"
  by (simp add: braces_in_prose_reply_def text_eval)

lemma braces_in_prose_block: "JSON_parse (js ''{ok}! {\"ideas\":[]}'') = None"
  by (simp add: js_def cu_def parse_eval)

lemma direct_parse_fails: "JSON_parse (cleanContent t) = None \<Longrightarrow> direct_parse t = None"
  by (simp add: direct_parse_def)

text \<open>
  Claim C4, amended. When the first attempt on the model's reply fails (the parse of the
  cleaned reply fails, or the parsed value has no array \<^verbatim>\<open>ideas\<close>), and the reply is a
  well-formed JSON object between a prose before it that has no \<^verbatim>\<open>{\<close> and a prose after
  it that has no \<^verbatim>\<open>}\<close>, the greedy match from the first \<^verbatim>\<open>{\<close> to the last \<^verbatim>\<open>}\<close> of
  the reply is that object, and the gateway responds 200 with the object parsed, without
  the prose.
\<close>

theorem brace_recovery:
  assumes "reaches_model req"
    and "model_reply w = Some (lead @ [cu CHR ''{''] @ mid @ [cu CHR ''}''] @ trail)"
    and "direct_parse (lead @ [cu CHR ''{''] @ mid @ [cu CHR ''}''] @ trail) = None"
    and "cu CHR ''{'' \<notin> set lead" and "cu CHR ''}'' \<notin> set trail"
    and "JSON_parse ([cu CHR ''{''] @ mid @ [cu CHR ''}'']) = Some v"
  shows "jsonMatch (lead @ [cu CHR ''{''] @ mid @ [cu CHR ''}''] @ trail)
           = Some ([cu CHR ''{''] @ mid @ [cu CHR ''}''])
       \<and> fst (serve w req) = json_response 200 v"
proof -
  let ?t = "lead @ [cu CHR ''{''] @ mid @ [cu CHR ''}''] @ trail"
  have m: "jsonMatch ?t = Some ([cu CHR ''{''] @ mid @ [cu CHR ''}''])"
    using assms(4,5) by (rule jsonMatch_greedy)
  from assms(3) m assms(6) have "coerce ?t = Inr v"
    by (rule coerce_good_block)
  with assms(1,2) have "fst (serve w req) = json_response 200 v"
    by (simp add: serve_reply)
  with m show ?thesis by simp
qed

lemma prose_reply_split:
  "prose_reply = js ''Sure! '' @ [cu CHR ''{''] @ js ''\"ideas\":[]'' @ [cu CHR ''}'']
                   @ js '' Hope that helps!''"
  by (simp add: prose_reply_def js_def)

lemma prose_reply_clean_parse: "JSON_parse (cleanContent prose_reply) = None"
  by (simp add: prose_reply_def text_eval parse_eval)

theorem brace_recovery_witness:
  "reaches_model (post fitness_request)
   \<and> model_reply (replying prose_reply) = Some prose_reply
   \<and> JSON_parse (cleanContent prose_reply) = None
   \<and> cu CHR ''{'' \<notin> set (js ''Sure! '') \<and> cu CHR ''}'' \<notin> set (js '' Hope that helps!'')
   \<and> JSON_parse (js ''{\"ideas\":[]}'') = Some empty_ideas
   \<and> fst (serve (replying prose_reply) (post fitness_request)) = json_response 200 empty_ideas"
proof -
  have d: "direct_parse (js ''Sure! '' @ [cu CHR ''{''] @ js ''\"ideas\":[]'' @ [cu CHR ''}'']
                   @ js '' Hope that helps!'') = None"
    using direct_parse_fails [OF prose_reply_clean_parse] by (simp only: prose_reply_split)
  have r: "model_reply (replying prose_reply)
             = Some (js ''Sure! '' @ [cu CHR ''{''] @ js ''\"ideas\":[]'' @ [cu CHR ''}'']
                   @ js '' Hope that helps!'')"
    by (simp only: model_reply_replying prose_reply_split)
  have l: "cu CHR ''{'' \<notin> set (js ''Sure! '')" by (simp add: js_def cu_def)
  have t: "cu CHR ''}'' \<notin> set (js '' Hope that helps!'')" by (simp add: js_def cu_def)
  have p: "JSON_parse ([cu CHR ''{''] @ js ''\"ideas\":[]'' @ [cu CHR ''}'']) = Some empty_ideas"
    using parse_empty_ideas by (simp add: js_def)
  from brace_recovery [OF reaches_fitness r d l t p]
  have "fst (serve (replying prose_reply) (post fitness_request)) = json_response 200 empty_ideas"
    by blast
  then show ?thesis
    by (simp add: reaches_fitness model_reply_replying prose_reply_clean_parse l t
          parse_empty_ideas)
qed

text \<open>
  With a brace in the prose the greedy match is not the object: the reply holds the
  well-formed object \<^verbatim>\<open>{"ideas":[]}\<close> between two pieces of prose, the parse of the
  cleaned reply fails, and the gateway responds 500.
\<close>

theorem brace_recovery_counterexample:
  "braces_in_prose_reply = js ''Sure {ok}! '' @ js ''{\"ideas\":[]}'' @ js '' Hope that helps!''
   \<and> JSON_parse (js ''{\"ideas\":[]}'') = Some empty_ideas
   \<and> reaches_model (post fitness_request)
   \<and> model_reply (replying braces_in_prose_reply) = Some braces_in_prose_reply
   \<and> JSON_parse (cleanContent braces_in_prose_reply) = None
   \<and> jsonMatch braces_in_prose_reply = Some (js ''{ok}! {\"ideas\":[]}'')
   \<and> fst (serve (replying braces_in_prose_reply) (post fitness_request))
       = json_response 500 (error_body (js ''Failed to parse AI response. Please try again.''))"
  by (simp add: braces_in_prose_reply_def [symmetric] parse_empty_ideas reaches_fitness
        model_reply_replying braces_in_prose_clean_parse braces_in_prose_match
        serve_reply coerce_bad_block [OF braces_in_prose_direct braces_in_prose_match
          braces_in_prose_block])

section \<open>The shape of a response body\<close>

lemma error_body_shape: "has_error_string (error_body m)"
  by (simp add: has_error_string_def error_body_def)

lemma direct_parse_shape: "direct_parse t = Some v \<Longrightarrow> has_ideas_array v"
  by (cases v)
     (auto simp: direct_parse_def valid_structure_def has_ideas_array_def
           split: option.splits if_splits)

lemma body_json_response: "body (json_response st v) = Some v"
  by (simp add: json_response_def)

lemma coerce_early_shape:
  "coerce t = Inl r \<Longrightarrow> \<exists>m. r = json_response 500 (error_body m)"
  by (auto simp: coerce_def split: option.splits)

lemma catch_block_shape: "\<exists>m. catch_block e = json_response 500 (error_body m)"
  unfolding catch_block_def by blast

lemma serve_shape_no_reply:
  assumes "reaches_model req" and "model_reply w = None"
  shows "\<exists>m. fst (serve w req) = json_response 500 (error_body m)"
proof (cases "fetch_result w")
  case (Inl e)
  with assms(1) catch_block_shape [of e] show ?thesis
    by (simp add: serve_reaches_model call_model_def)
next
  case (Inr u)
  show ?thesis
  proof (cases "up_ok u")
    case False
    show ?thesis
    proof (cases "up_text u")
      case (Inl e)
      with Inr False assms(1) catch_block_shape [of e] show ?thesis
        by (simp add: serve_reaches_model call_model_def)
    next
      case readable: (Inr errorText)
      with Inr False assms(1) show ?thesis
        by (auto simp: serve_reaches_model call_model_def)
    qed
  next
    case True
    show ?thesis
    proof (cases "up_json u")
      case (Inl e)
      with Inr True assms(1) catch_block_shape [of e] show ?thesis
        by (simp add: serve_reaches_model call_model_def)
    next
      case data: (Inr data)
      show ?thesis
      proof (cases "read_content w data")
        case (Inl e)
        with Inr True data assms(1) catch_block_shape [of e] show ?thesis
          by (simp add: serve_reaches_model call_model_def)
      next
        case t: (Inr t)
        with Inr True data assms(2) show ?thesis
          by (simp add: model_reply_def)
      qed
    qed
  qed
qed

lemma serve_shape_reply:
  assumes "reaches_model req" and "model_reply w = Some t"
  shows "recovered_by_match w req
         \<or> (\<exists>v. body (fst (serve w req)) = Some v \<and> (has_ideas_array v \<or> has_error_string v))"
proof (cases "direct_parse t")
  case (Some v)
  with assms show ?thesis
    by (auto simp: serve_reply coerce_direct body_json_response dest: direct_parse_shape)
next
  case None
  show ?thesis
  proof (cases "jsonMatch t")
    case n: None
    with None assms show ?thesis
      by (simp add: serve_reply coerce_no_match body_json_response error_body_shape)
  next
    case s: (Some block)
    show ?thesis
    proof (cases "JSON_parse block")
      case p: None
      with None s assms show ?thesis
        by (simp add: serve_reply coerce_bad_block body_json_response error_body_shape)
    next
      case (Some v)
      with None s assms show ?thesis
        by (simp add: recovered_by_match_def)
    qed
  qed
qed

text \<open>
  Claim C1, amended. The preflight response to \<^verbatim>\<open>OPTIONS\<close> has an empty body. For every
  other request, unless the body was recovered by the brace match, the response body is
  an object with an array \<^verbatim>\<open>ideas\<close> or an object with a string \<^verbatim>\<open>error\<close>.
\<close>

theorem response_body_shapes:
  "(req_method req = js ''OPTIONS'' \<longrightarrow> body (fst (serve w req)) = None)
   \<and> (req_method req \<noteq> js ''OPTIONS'' \<longrightarrow>
        recovered_by_match w req
        \<or> (\<exists>v. body (fst (serve w req)) = Some v \<and> (has_ideas_array v \<or> has_error_string v)))"
proof (intro conjI impI)
  assume "req_method req = js ''OPTIONS''"
  then show "body (fst (serve w req)) = None"
    by (simp add: serve_preflight preflight_response_def)
next
  assume m: "req_method req \<noteq> js ''OPTIONS''"
  let ?goal = "recovered_by_match w req
        \<or> (\<exists>v. body (fst (serve w req)) = Some v \<and> (has_ideas_array v \<or> has_error_string v))"
  have caught: "?goal" if "fst (serve w req) = json_response st (error_body msg)" for st msg
    using that by (simp add: body_json_response error_body_shape)
  show ?goal
  proof (cases "req_json req")
    case (Inl e)
    from catch_block_shape [of e] obtain msg
      where "catch_block e = json_response 500 (error_body msg)" ..
    with Inl m have "fst (serve w req) = json_response 500 (error_body msg)"
      by (simp add: serve_unreadable)
    then show ?thesis by (rule caught)
  next
    case (Inr b)
    show ?thesis
    proof (cases "b = JNull")
      case True
      from catch_block_shape [of "type_error w Destructure"] obtain msg
        where "catch_block (type_error w Destructure) = json_response 500 (error_body msg)" ..
      with True Inr m have "fst (serve w req) = json_response 500 (error_body msg)"
        by (simp add: serve_null)
      then show ?thesis by (rule caught)
    next
      case False
      show ?thesis
      proof (cases "required_present b")
        case nr: False
        with Inr m False
        have "fst (serve w req) = json_response 400 (error_body missing_fields_message)"
          by (simp add: serve_validation)
        then show ?thesis by (rule caught)
      next
        case True
        with Inr m False have v: "valid_request req" by (simp add: valid_request_def)
        show ?thesis
        proof (cases "reaches_model req")
          case r: True
          show ?thesis
          proof (cases "model_reply w")
            case None
            from serve_shape_no_reply [OF r None] obtain msg
              where "fst (serve w req) = json_response 500 (error_body msg)" ..
            then show ?thesis by (rule caught)
          next
            case (Some t)
            from serve_shape_reply [OF r Some] show ?thesis .
          qed
        next
          case nr: False
          from catch_block_shape [of "type_error w ToPrimitive"] obtain msg
            where "catch_block (type_error w ToPrimitive) = json_response 500 (error_body msg)" ..
          with serve_unconvertible [OF v nr, of w]
          have "fst (serve w req) = json_response 500 (error_body msg)" by simp
          then show ?thesis by (rule caught)
        qed
      qed
    qed
  qed
qed

lemma foo_reply_direct: "direct_parse foo_reply = None"
  by (simp add: direct_parse_def valid_structure_def foo_reply_def text_eval parse_eval)

lemma foo_reply_match: "jsonMatch foo_reply = Some foo_reply"
  by (simp add: foo_reply_def text_eval)

lemma foo_reply_parse: "JSON_parse foo_reply = Some (JObject [(js ''foo'', JNumber 1)])"
  by (simp add: foo_reply_def js_def cu_def parse_eval)

lemma foo_reply_clean: "cleanContent foo_reply = foo_reply"
  by (simp add: foo_reply_def text_eval)

lemma preflight_method: "req_method preflight = js ''OPTIONS''"
  by (simp add: preflight_def)

lemma post_method: "req_method (post b) \<noteq> js ''OPTIONS''"
  by (simp add: post_def js_neq_OPTIONS)

lemma fenced_reply_direct: "direct_parse fenced_reply = Some empty_ideas"
  by (simp add: direct_parse_def fenced_reply_clean parse_empty_ideas valid_empty_ideas)

lemma fenced_reply_not_recovered:
  "\<not> recovered_by_match (replying fenced_reply) (post fitness_request)"
  by (simp add: recovered_by_match_def model_reply_replying fenced_reply_direct)

theorem response_body_shapes_witness:
  "req_method preflight = js ''OPTIONS''
   \<and> body (fst (serve (replying fenced_reply) preflight)) = None
   \<and> req_method (post fitness_request) \<noteq> js ''OPTIONS''
   \<and> \<not> recovered_by_match (replying fenced_reply) (post fitness_request)
   \<and> (\<exists>v. body (fst (serve (replying fenced_reply) (post fitness_request))) = Some v
           \<and> (has_ideas_array v \<or> has_error_string v))"
  using response_body_shapes [of preflight "replying fenced_reply"]
        response_body_shapes [of "post fitness_request" "replying fenced_reply"]
        preflight_method post_method [of fitness_request] fenced_reply_not_recovered
  by blast

text \<open>
  The preflight response has no body. And when the model replies \<^verbatim>\<open>{"foo":1}\<close>, the
  first attempt parses it and rejects it for its missing \<^verbatim>\<open>ideas\<close>, the brace match
  then finds the same text, and the gateway responds 200 with \<^verbatim>\<open>{"foo":1}\<close>, which has
  neither shape.
\<close>

theorem response_body_shapes_counterexample:
  "req_method preflight = js ''OPTIONS''
   \<and> body (fst (serve (replying fenced_reply) preflight)) = None
   \<and> reaches_model (post fitness_request)
   \<and> model_reply (replying foo_reply) = Some foo_reply
   \<and> JSON_parse (cleanContent foo_reply) = Some (JObject [(js ''foo'', JNumber 1)])
   \<and> \<not> valid_structure (JObject [(js ''foo'', JNumber 1)])
   \<and> fst (serve (replying foo_reply) (post fitness_request))
       = json_response 200 (JObject [(js ''foo'', JNumber 1)])
   \<and> \<not> has_ideas_array (JObject [(js ''foo'', JNumber 1)])
   \<and> \<not> has_error_string (JObject [(js ''foo'', JNumber 1)])"
proof -
  have 1: "body (fst (serve (replying fenced_reply) preflight)) = None"
    by (simp add: serve_preflight preflight_method preflight_response_def)
  have 2: "fst (serve (replying foo_reply) (post fitness_request))
       = json_response 200 (JObject [(js ''foo'', JNumber 1)])"
    by (simp add: serve_reply [OF reaches_fitness model_reply_replying]
          coerce_good_block [OF foo_reply_direct foo_reply_match foo_reply_parse])
  have 3: "\<not> valid_structure (JObject [(js ''foo'', JNumber 1)])"
    by (simp add: valid_structure_def js_def cu_def)
  have 4: "\<not> has_ideas_array (JObject [(js ''foo'', JNumber 1)])"
    by (simp add: has_ideas_array_def js_def cu_def)
  have 5: "\<not> has_error_string (JObject [(js ''foo'', JNumber 1)])"
    by (simp add: has_error_string_def js_def cu_def)
  from 1 2 3 4 5 show ?thesis
    by (simp add: preflight_method reaches_fitness model_reply_replying foo_reply_clean
          foo_reply_parse)
qed

section \<open>Stripping the fences\<close>





lemma trim_infix: "\<exists>a b. s = a @ trim s @ b"
proof -
  let ?d = "dropWhile is_space s"
  have "rev (takeWhile is_space (rev ?d) @ dropWhile is_space (rev ?d)) = rev (rev ?d)"
    by (simp only: takeWhile_dropWhile_id)
  then have "rev (dropWhile is_space (rev ?d)) @ rev (takeWhile is_space (rev ?d)) = ?d"
    by (simp only: rev_append rev_rev_ident)
  then have "?d = trim s @ rev (takeWhile is_space (rev ?d))"
    by (simp only: trim_def)
  moreover have "s = takeWhile is_space s @ ?d" by simp
  ultimately have "s = takeWhile is_space s @ trim s @ rev (takeWhile is_space (rev ?d))"
    by simp
  then show ?thesis by blast
qed









section \<open>The page controller\<close>



lemma receive_succeeds:
  assumes "page_fetch w = Inr r" and "reply_ok r" and "reply_json r = Inr data"
    and "get_property data (js ''ideas'') = Some (JArray xs)"
  shows "receive w = Inr xs"
proof -
  from assms(4) have "data \<noteq> JNull" by auto
  then have "member (Some data) (js ''ideas'') = Some (get_property data (js ''ideas''))"
    by (cases data) simp_all
  with assms show ?thesis by (simp add: receive_def)
qed




lemma run_success:
  "receive w = Inr xs \<Longrightarrow>
   run (handleGenerate w formData) p = p\<lparr>ideas := xs, isLoading := False\<rparr>"
  by (simp add: handleGenerate_def run_def)






text \<open>
  Claim C9. When the gateway answers with a 2xx status, as 200 is, and a body whose
  \<^verbatim>\<open>ideas\<close> is an array, the page sets the list to that array and shows the success
  toast \<^verbatim>\<open>3 amazing ideas generated!\<close>, whatever the length of the array. When the array
  is empty, as in the body \<^verbatim>\<open>{"ideas": []}\<close>, the list stays empty and the page shows the
  invitation and no results section.
\<close>

theorem empty_ideas_is_a_success:
  assumes "page_fetch w = Inr r" and "reply_ok r" and "reply_json r = Inr data"
    and "get_property data (js ''ideas'') = Some (JArray xs)"
  shows "handleGenerate w formData
           = [SetIsLoading True, SetIdeas [],
              Fetch (JObject (formData @ [(js ''multi_idea_count'', JNumber 3)])),
              SetIdeas xs, ToastSuccess (js ''3 amazing ideas generated!''),
              SetIsLoading False]
       \<and> error_toasts (handleGenerate w formData) = []
       \<and> ideas (run (handleGenerate w formData) p) = xs
       \<and> (xs = [] \<longrightarrow>
            render (run (handleGenerate w formData) p)
              = \<lparr>results_section = None, empty_state = True\<rparr>)"
proof -
  from assms have r: "receive w = Inr xs" by (rule receive_succeeds)
  then have "handleGenerate w formData
           = [SetIsLoading True, SetIdeas [],
              Fetch (JObject (formData @ [(js ''multi_idea_count'', JNumber 3)])),
              SetIdeas xs, ToastSuccess (js ''3 amazing ideas generated!''),
              SetIsLoading False]"
    by (simp add: handleGenerate_def)
  moreover from this have "error_toasts (handleGenerate w formData) = []" by simp
  moreover from r have "ideas (run (handleGenerate w formData) p) = xs"
    by (simp add: run_success)
  moreover from r have "xs = [] \<longrightarrow>
            render (run (handleGenerate w formData) p)
              = \<lparr>results_section = None, empty_state = True\<rparr>"
    by (simp add: run_success render_def)
  ultimately show ?thesis by blast
qed

theorem empty_ideas_is_a_success_witness:
  "page_fetch (gateway_answers 200 (Inr empty_ideas))
     = Inr \<lparr>reply_status = 200, reply_json = Inr empty_ideas\<rparr>
   \<and> reply_ok \<lparr>reply_status = 200, reply_json = Inr empty_ideas\<rparr>
   \<and> get_property empty_ideas (js ''ideas'') = Some (JArray [])
   \<and> handleGenerate (gateway_answers 200 (Inr empty_ideas)) []
       = [SetIsLoading True, SetIdeas [],
          Fetch (JObject [(js ''multi_idea_count'', JNumber 3)]),
          SetIdeas [], ToastSuccess (js ''3 amazing ideas generated!''),
          SetIsLoading False]
   \<and> render (run (handleGenerate (gateway_answers 200 (Inr empty_ideas)) []) earlier_page)
       = \<lparr>results_section = None, empty_state = True\<rparr>"
proof -
  let ?r = "\<lparr>reply_status = 200, reply_json = Inr empty_ideas\<rparr>"
  have a: "page_fetch (gateway_answers 200 (Inr empty_ideas)) = Inr ?r"
    by (simp add: gateway_answers_def)
  have b: "reply_ok ?r" by (simp add: reply_ok_def)
  have c: "reply_json ?r = Inr empty_ideas" by simp
  have d: "get_property empty_ideas (js ''ideas'') = Some (JArray [])"
    by (simp add: empty_ideas_def)
  note t = empty_ideas_is_a_success [OF a b c d, of "[]" earlier_page]
  have e: "([]::json list) = []" by simp
  from t [THEN conjunct1] t [THEN conjunct2, THEN conjunct2, THEN conjunct2, THEN mp, OF e]
  have "handleGenerate (gateway_answers 200 (Inr empty_ideas)) []
       = [SetIsLoading True, SetIdeas [],
          Fetch (JObject [(js ''multi_idea_count'', JNumber 3)]),
          SetIdeas [], ToastSuccess (js ''3 amazing ideas generated!''),
          SetIsLoading False]"
    and "render (run (handleGenerate (gateway_answers 200 (Inr empty_ideas)) []) earlier_page)
       = \<lparr>results_section = None, empty_state = True\<rparr>"
    by (simp_all only: append_Nil)
  with a b d show ?thesis by blast
qed

section \<open>A parsed object comes from a text with braces\<close>

lemma subseq_braces_iff:
  "subseq braces s = (\<exists>a b c. s = a @ [cu CHR ''{''] @ b @ [cu CHR ''}''] @ c)"
proof
  assume "subseq braces s"
  then obtain a r where s: "s = a @ cu CHR ''{'' # r" and r: "subseq [cu CHR ''}''] r"
    unfolding braces_def by (auto dest: list_emb_ConsD)
  from r have "cu CHR ''}'' \<in> set r" by (simp add: subseq_singleton_left)
  then obtain b c where "r = b @ cu CHR ''}'' # c" by (auto dest: split_list)
  with s show "\<exists>a b c. s = a @ [cu CHR ''{''] @ b @ [cu CHR ''}''] @ c" by auto
next
  assume "\<exists>a b c. s = a @ [cu CHR ''{''] @ b @ [cu CHR ''}''] @ c"
  then obtain a b c where s: "s = a @ [cu CHR ''{''] @ b @ [cu CHR ''}''] @ c" by blast
  have "subseq [cu CHR ''}''] (b @ [cu CHR ''}''] @ c)"
    by (simp add: subseq_singleton_left)
  then have "subseq (cu CHR ''{'' # [cu CHR ''}'']) (cu CHR ''{'' # (b @ [cu CHR ''}''] @ c))"
    by (rule subseq_Cons2)
  then have "subseq braces (a @ cu CHR ''{'' # (b @ [cu CHR ''}''] @ c))"
    unfolding braces_def by (rule subseq_drop_many)
  with s show "subseq braces s" by simp
qed

subsection \<open>The lexer\<close>

lemma brace_tokens_Nil: "brace_tokens c []"
  by (simp add: brace_tokens_def)

lemma default_step_tokens:
  "default_step c = Some (ts, st) \<Longrightarrow> brace_tokens c ts \<and> literal_state st"
  by (auto simp: default_step_def brace_tokens_def split: if_splits)

lemma end_number_tokens:
  "end_number neg m fd eneg ex c = Some (ts, st) \<Longrightarrow> brace_tokens c ts \<and> literal_state st"
  by (auto simp: end_number_def brace_tokens_def split: option.splits
           dest!: default_step_tokens)

lemma num_step_tokens:
  "num_step ph neg m fd eneg ex c = Some (ts, st) \<Longrightarrow> brace_tokens c ts \<and> literal_state st"
  by (cases ph) (auto simp: brace_tokens_Nil split: if_splits dest: end_number_tokens)

lemma lex_step_tokens:
  assumes "lex_step st c = Some (ts, st')" and "literal_state st"
  shows "brace_tokens c ts \<and> literal_state st'"
proof (cases st)
  case LDefault
  with assms show ?thesis by (simp add: default_step_tokens)
next
  case (LStr acc)
  with assms show ?thesis by (auto simp: brace_tokens_def split: if_splits)
next
  case (LEsc acc)
  with assms show ?thesis by (auto simp: escape_step_def brace_tokens_Nil split: if_splits)
next
  case (LUni acc v k)
  with assms show ?thesis by (auto simp: brace_tokens_Nil split: if_splits option.splits)
next
  case (LNum ph neg m fd eneg ex)
  with assms show ?thesis by (simp add: num_step_tokens)
next
  case (LLit rest t)
  with assms show ?thesis
    by (auto simp: brace_tokens_def split: list.splits if_splits)
qed

lemma lex_end_tokens: "lex_end st = Some ts \<Longrightarrow> TLBrace \<notin> set ts \<and> TRBrace \<notin> set ts"
  by (cases st) (auto split: if_splits)

lemma lex_close_brace:
  "lex st s = Some ts \<Longrightarrow> literal_state st \<Longrightarrow> TRBrace \<in> set ts \<Longrightarrow> cu CHR ''}'' \<in> set s"
proof (induction s arbitrary: st ts)
  case Nil
  then show ?case by (auto dest: lex_end_tokens)
next
  case (Cons c cs)
  from Cons.prems(1) obtain ts1 st' us where
    step: "lex_step st c = Some (ts1, st')" and rest: "lex st' cs = Some us" and ts: "ts = ts1 @ us"
    by (auto split: option.splits)
  from lex_step_tokens [OF step Cons.prems(2)]
  have b: "brace_tokens c ts1" and l: "literal_state st'" by simp_all
  from Cons.prems(3) ts have "TRBrace \<in> set ts1 \<or> TRBrace \<in> set us" by auto
  then show ?case
  proof
    assume "TRBrace \<in> set ts1"
    with b show ?thesis by (simp add: brace_tokens_def)
  next
    assume "TRBrace \<in> set us"
    from Cons.IH [OF rest l this] show ?thesis by simp
  qed
qed

lemma lex_braces:
  "lex st s = Some (TLBrace # rest) \<Longrightarrow> literal_state st \<Longrightarrow> TRBrace \<in> set rest \<Longrightarrow>
   subseq braces s"
proof (induction s arbitrary: st)
  case Nil
  then show ?case by (auto dest: lex_end_tokens)
next
  case (Cons c cs)
  from Cons.prems(1) obtain ts1 st' us where
    step: "lex_step st c = Some (ts1, st')" and more: "lex st' cs = Some us"
    and ts: "TLBrace # rest = ts1 @ us"
    by (auto split: option.splits)
  from lex_step_tokens [OF step Cons.prems(2)]
  have b: "brace_tokens c ts1" and l: "literal_state st'" by simp_all
  show ?case
  proof (cases ts1)
    case Nil
    with ts have "us = TLBrace # rest" by simp
    with more have "lex st' cs = Some (TLBrace # rest)" by simp
    from Cons.IH [OF this l Cons.prems(3)] show ?thesis
      by (rule list_emb_Cons)
  next
    case (Cons t r)
    with ts have t: "t = TLBrace" and r: "rest = r @ us" by simp_all
    with b Cons have "r = []" and c: "c = cu CHR ''{''"
      by (simp_all add: brace_tokens_def)
    with r Cons.prems(3) have "TRBrace \<in> set us" by simp
    from lex_close_brace [OF more l this] have "subseq [cu CHR ''}''] cs"
      by (simp add: subseq_singleton_left)
    then have "subseq (c # [cu CHR ''}'']) (c # cs)" by (rule subseq_Cons2)
    with c show ?thesis by (simp add: braces_def)
  qed
qed

subsection \<open>The grammar\<close>

lemma bottom_object_Cons: "st \<noteq> [] \<Longrightarrow> bottom_object (f # st) = bottom_object st"
  by (simp add: bottom_object_def)

lemma reduce_frame:
  assumes "reduce v st = Some (st', e')" and "st \<noteq> []"
  shows "st' \<noteq> [] \<and> \<not> is_finished e' \<and> bottom_object st' = bottom_object st"
proof -
  from assms(2) obtain f r where st: "st = f # r" by (cases st) auto
  show ?thesis
  proof (cases f)
    case (InArr es)
    with assms(1) st show ?thesis
      by (cases "r = []") (auto simp: bottom_object_def)
  next
    case (InObj ms k)
    with assms(1) st show ?thesis
      by (cases k; cases "r = []") (auto simp: bottom_object_def)
  qed
qed

lemma reduce_last:
  assumes "reduce v st = Some (st', e')"
  shows "(st' \<noteq> [] \<and> \<not> is_finished e' \<and> st \<noteq> [] \<and> bottom_object st' = bottom_object st)
         \<or> (st = [] \<and> st' = [] \<and> e' = Finished v)"
proof (cases "st = []")
  case True
  with assms show ?thesis by simp
next
  case False
  with reduce_frame [OF assms] show ?thesis by simp
qed

lemma scalar_not_object: "scalar t = Some v \<Longrightarrow> \<not> is_object v"
  by (cases t) auto

lemma value_step_frame:
  assumes "value_step t st = Some (st', e')" and "st \<noteq> []"
  shows "st' \<noteq> [] \<and> \<not> is_finished e' \<and> bottom_object st' = bottom_object st"
proof (cases "t = TLBracket \<or> t = TLBrace")
  case True
  with assms show ?thesis
    by (auto simp: value_step_def bottom_object_Cons)
next
  case False
  with assms(1) obtain v where "reduce v st = Some (st', e')"
    by (auto simp: value_step_def split: option.splits)
  from reduce_frame [OF this assms(2)] show ?thesis .
qed

lemma close_step_frame:
  assumes "close_step t st = Some (st', e')" and "st \<noteq> []"
  shows "(st' \<noteq> [] \<and> \<not> is_finished e' \<and> bottom_object st' = bottom_object st)
         \<or> (st' = [] \<and> (\<exists>v. e' = Finished v \<and> is_object v = bottom_object st
                               \<and> (bottom_object st \<longrightarrow> t = TRBrace)))"
proof -
  from assms(2) obtain f r where st: "st = f # r" by (cases st) auto
  show ?thesis
  proof (cases f)
    case (InArr es)
    with assms(1) st have red: "reduce (JArray (rev es)) r = Some (st', e')"
      by (auto simp: close_step_def split: if_splits)
    from reduce_last [OF red] show ?thesis
    proof
      assume "st' \<noteq> [] \<and> \<not> is_finished e' \<and> r \<noteq> [] \<and> bottom_object st' = bottom_object r"
      with st show ?thesis by (simp add: bottom_object_Cons)
    next
      assume "r = [] \<and> st' = [] \<and> e' = Finished (JArray (rev es))"
      with st InArr show ?thesis by (simp add: bottom_object_def)
    qed
  next
    case (InObj ms k)
    with assms(1) st have k: "k = None" and t: "t = TRBrace"
      and red: "reduce (JObject (rev ms)) r = Some (st', e')"
      by (auto simp: close_step_def split: if_splits option.splits)
    from reduce_last [OF red] show ?thesis
    proof
      assume "st' \<noteq> [] \<and> \<not> is_finished e' \<and> r \<noteq> [] \<and> bottom_object st' = bottom_object r"
      with st show ?thesis by (simp add: bottom_object_Cons)
    next
      assume "r = [] \<and> st' = [] \<and> e' = Finished (JObject (rev ms))"
      with st InObj t show ?thesis by (simp add: bottom_object_def)
    qed
  qed
qed

lemma key_step_frame:
  assumes "key_step t st = Some (st', e')"
  shows "st' \<noteq> [] \<and> \<not> is_finished e' \<and> bottom_object st' = bottom_object st"
proof -
  from assms obtain k ms r where "st = InObj ms None # r" and "st' = InObj ms (Some k) # r"
    and "e' = WantColon"
    by (auto simp: key_step_def split: token.splits list.splits frame.splits option.splits)
  then show ?thesis
    by (cases "r = []") (simp_all add: bottom_object_def)
qed

lemma parse_step_frame:
  assumes "parse_step e t st = Some (st', e')" and "st \<noteq> []" and "\<not> is_finished e"
  shows "(st' \<noteq> [] \<and> \<not> is_finished e' \<and> bottom_object st' = bottom_object st)
         \<or> (st' = [] \<and> (\<exists>v. e' = Finished v \<and> is_object v = bottom_object st
                               \<and> (bottom_object st \<longrightarrow> t = TRBrace)))"
proof (cases e)
  case WantValue
  with assms(1) have "value_step t st = Some (st', e')" by simp
  from value_step_frame [OF this assms(2)] show ?thesis by simp
next
  case WantValueOrEnd
  show ?thesis
  proof (cases "t = TRBracket")
    case True
    with WantValueOrEnd assms(1) have "close_step t st = Some (st', e')" by simp
    from close_step_frame [OF this assms(2)] show ?thesis .
  next
    case False
    with WantValueOrEnd assms(1) have "value_step t st = Some (st', e')" by simp
    from value_step_frame [OF this assms(2)] show ?thesis by simp
  qed
next
  case WantKeyOrEnd
  show ?thesis
  proof (cases "t = TRBrace")
    case True
    with WantKeyOrEnd assms(1) have "close_step t st = Some (st', e')" by simp
    from close_step_frame [OF this assms(2)] show ?thesis .
  next
    case False
    with WantKeyOrEnd assms(1) have "key_step t st = Some (st', e')" by simp
    from key_step_frame [OF this] show ?thesis by simp
  qed
next
  case WantKey
  with assms(1) have "key_step t st = Some (st', e')" by simp
  from key_step_frame [OF this] show ?thesis by simp
next
  case WantColon
  with assms show ?thesis by (auto split: if_splits)
next
  case AfterValue
  show ?thesis
  proof (cases "t = TComma")
    case True
    with AfterValue assms show ?thesis
      by (auto split: list.splits frame.splits option.splits)
  next
    case False
    with AfterValue assms(1) have "close_step t st = Some (st', e')" by simp
    from close_step_frame [OF this assms(2)] show ?thesis .
  qed
next
  case (Finished v)
  with assms show ?thesis by simp
qed

lemma parse_tokens_finished: "parse_tokens (Finished v0) st ts = Some v \<Longrightarrow> ts = [] \<and> v = v0"
  by (cases ts) auto

lemma parse_tokens_bottom:
  "parse_tokens e st ts = Some v \<Longrightarrow> st \<noteq> [] \<Longrightarrow> \<not> is_finished e \<Longrightarrow>
   is_object v = bottom_object st \<and> (bottom_object st \<longrightarrow> TRBrace \<in> set ts)"
proof (induction ts arbitrary: e st)
  case Nil
  then show ?case by (cases e) auto
next
  case (Cons t ts)
  from Cons.prems(1) obtain st' e' where
    step: "parse_step e t st = Some (st', e')" and more: "parse_tokens e' st' ts = Some v"
    by (auto split: option.splits)
  from parse_step_frame [OF step Cons.prems(2,3)] show ?case
  proof
    assume a: "st' \<noteq> [] \<and> \<not> is_finished e' \<and> bottom_object st' = bottom_object st"
    with Cons.IH [OF more] show ?thesis by simp
  next
    assume "st' = [] \<and> (\<exists>v. e' = Finished v \<and> is_object v = bottom_object st
                               \<and> (bottom_object st \<longrightarrow> t = TRBrace))"
    then obtain v0 where e': "e' = Finished v0" and o: "is_object v0 = bottom_object st"
      and b: "bottom_object st \<longrightarrow> t = TRBrace" by blast
    from more e' have "v = v0" by (auto dest: parse_tokens_finished)
    with o b show ?thesis by simp
  qed
qed

lemma parse_object_tokens:
  assumes "parse_tokens WantValue [] ts = Some v" and "is_object v"
  shows "\<exists>rest. ts = TLBrace # rest \<and> TRBrace \<in> set rest"
proof (cases ts)
  case Nil
  with assms show ?thesis by simp
next
  case (Cons t r)
  with assms(1) obtain st' e' where
    step: "value_step t [] = Some (st', e')" and more: "parse_tokens e' st' r = Some v"
    by (auto split: option.splits)
  show ?thesis
  proof (cases "t = TLBrace")
    case True
    with step have "st' = [InObj [] None]" and "e' = WantKeyOrEnd"
      by (simp_all add: value_step_def)
    with parse_tokens_bottom [OF more] have "TRBrace \<in> set r"
      by (simp add: bottom_object_def)
    with True Cons show ?thesis by simp
  next
    case nb: False
    show ?thesis
    proof (cases "t = TLBracket")
      case True
      with step have "st' = [InArr []]" and "e' = WantValueOrEnd"
        by (simp_all add: value_step_def)
      with parse_tokens_bottom [OF more] assms(2) show ?thesis
        by (simp add: bottom_object_def)
    next
      case False
      with nb step obtain v0 where s: "scalar t = Some v0" and "st' = []" and "e' = Finished v0"
        by (auto simp: value_step_def split: option.splits)
      with more have "v = v0" by (auto dest: parse_tokens_finished)
      with s assms(2) show ?thesis by (auto dest: scalar_not_object)
    qed
  qed
qed

lemma parse_object_braces:
  assumes "JSON_parse s = Some v" and "is_object v"
  shows "subseq braces s"
proof -
  from assms(1) obtain ts where l: "lex LDefault s = Some ts"
    and p: "parse_tokens WantValue [] ts = Some v"
    by (auto simp: JSON_parse_def split: option.splits)
  from parse_object_tokens [OF p assms(2)] obtain rest
    where "ts = TLBrace # rest" and r: "TRBrace \<in> set rest" by blast
  with l have "lex LDefault s = Some (TLBrace # rest)" by simp
  from lex_braces [OF this _ r] show ?thesis by simp
qed

subsection \<open>The cleaned text is what is left of the reply\<close>

lemma skip_newline_suffix: "suffix (skip_newline r) r"
  by (auto simp: skip_newline_def suffix_def split: list.split)

lemma remove_all_subseq: "subseq (remove_all pat s) s"
proof (induction pat s rule: remove_all.induct)
  case (1 pat s)
  show ?case
  proof (cases "s = [] \<or> pat = []")
    case True
    then show ?thesis by (subst remove_all.simps) simp
  next
    case False
    show ?thesis
    proof (cases "take (length pat) s = pat")
      case True
      have "suffix (skip_newline (drop (length pat) s)) s"
        using skip_newline_suffix suffix_drop by (rule suffix_order.trans)
      then have "subseq (skip_newline (drop (length pat) s)) s" by (rule suffix_imp_subseq)
      with "1.IH"(1) [OF False True]
      have "subseq (remove_all pat (skip_newline (drop (length pat) s))) s"
        by (rule subseq_order.trans)
      with False True show ?thesis by (subst remove_all.simps) simp
    next
      case nm: False
      from False obtain c cs where s: "s = c # cs" by (cases s) auto
      from "1.IH"(2) [OF False nm] s have "subseq (remove_all pat cs) cs" by simp
      then have "subseq (c # remove_all pat cs) (c # cs)" by (rule subseq_Cons2)
      with False nm s show ?thesis by (subst remove_all.simps) simp
    qed
  qed
qed

lemma trim_subseq: "subseq (trim s) s"
proof -
  from trim_infix [of s] obtain a b where s: "s = a @ trim s @ b" by blast
  have "subseq (trim s) (a @ trim s @ b)"
    by (intro subseq_drop_many subseq_rev_drop_many) simp
  with s show ?thesis by simp
qed

lemma cleanContent_subseq: "subseq (cleanContent t) t"
  unfolding cleanContent_def
  by (meson trim_subseq remove_all_subseq subseq_order.trans)

lemma direct_parse_braces:
  assumes "direct_parse t = Some v"
  shows "subseq braces t"
proof -
  from assms have p: "JSON_parse (cleanContent t) = Some v"
    by (auto simp: direct_parse_def split: option.splits if_splits)
  from direct_parse_shape [OF assms] have "is_object v"
    by (cases v) (simp_all add: has_ideas_array_def)
  from parse_object_braces [OF p this] cleanContent_subseq [of t] show ?thesis
    by (rule subseq_order.trans)
qed

lemma no_block_direct_parse: "jsonMatch t = None \<Longrightarrow> direct_parse t = None"
proof (rule ccontr)
  assume n: "jsonMatch t = None" and "direct_parse t \<noteq> None"
  then obtain v where "direct_parse t = Some v" by auto
  from direct_parse_braces [OF this] have "subseq braces t" .
  with n show False by (simp add: subseq_braces_iff jsonMatch_None_iff)
qed

text \<open>
  Claim C5. When the recovery of JSON from the model's reply fails, the gateway tells two
  failures apart. If the reply has no brace-delimited block, that is no \<^verbatim>\<open>{\<close> with a
  \<^verbatim>\<open>}\<close> after it, the first attempt fails as well and the gateway responds 500 with
  \<^verbatim>\<open>{"error": "AI did not return valid JSON. Please try again."}\<close>. If the first attempt
  fails, a block is found and its parse fails, the gateway responds 500 with
  \<^verbatim>\<open>{"error": "Failed to parse AI response. Please try again."}\<close>.
\<close>

theorem recovery_failure_messages:
  assumes "reaches_model req" and "model_reply w = Some t"
  shows "((\<nexists>a b c. t = a @ [cu CHR ''{''] @ b @ [cu CHR ''}''] @ c) \<longrightarrow>
            direct_parse t = None
            \<and> fst (serve w req)
                = json_response 500
                    (error_body (js ''AI did not return valid JSON. Please try again.'')))
       \<and> (\<forall>block. direct_parse t = None \<and> jsonMatch t = Some block \<and> JSON_parse block = None \<longrightarrow>
            fst (serve w req)
              = json_response 500
                  (error_body (js ''Failed to parse AI response. Please try again.'')))"
proof (intro conjI impI allI)
  assume "\<nexists>a b c. t = a @ [cu CHR ''{''] @ b @ [cu CHR ''}''] @ c"
  with jsonMatch_None_iff [of t] have n: "jsonMatch t = None" by blast
  then show d: "direct_parse t = None" by (rule no_block_direct_parse)
  from assms d n show "fst (serve w req)
      = json_response 500 (error_body (js ''AI did not return valid JSON. Please try again.''))"
    by (simp add: serve_reply coerce_no_match)
next
  fix block
  assume "direct_parse t = None \<and> jsonMatch t = Some block \<and> JSON_parse block = None"
  with assms show "fst (serve w req)
      = json_response 500 (error_body (js ''Failed to parse AI response. Please try again.''))"
    by (simp add: serve_reply coerce_bad_block)
qed

theorem recovery_failure_messages_witness:
  "reaches_model (post fitness_request)
   \<and> model_reply (replying plain_reply) = Some plain_reply
   \<and> jsonMatch plain_reply = None
   \<and> fst (serve (replying plain_reply) (post fitness_request))
       = json_response 500 (error_body (js ''AI did not return valid JSON. Please try again.''))
   \<and> model_reply (replying braces_in_prose_reply) = Some braces_in_prose_reply
   \<and> direct_parse braces_in_prose_reply = None
   \<and> jsonMatch braces_in_prose_reply = Some (js ''{ok}! {\"ideas\":[]}'')
   \<and> JSON_parse (js ''{ok}! {\"ideas\":[]}'') = None
   \<and> fst (serve (replying braces_in_prose_reply) (post fitness_request))
       = json_response 500 (error_body (js ''Failed to parse AI response. Please try again.''))"
proof -
  have n: "\<nexists>a b c. plain_reply = a @ [cu CHR ''{''] @ b @ [cu CHR ''}''] @ c"
    using jsonMatch_None_iff [of plain_reply] plain_reply_match by blast
  from recovery_failure_messages [OF reaches_fitness model_reply_replying, of plain_reply] n
  have 1: "fst (serve (replying plain_reply) (post fitness_request))
       = json_response 500 (error_body (js ''AI did not return valid JSON. Please try again.''))"
    by blast
  from recovery_failure_messages
         [OF reaches_fitness model_reply_replying, of braces_in_prose_reply]
       braces_in_prose_direct braces_in_prose_match braces_in_prose_block
  have 2: "fst (serve (replying braces_in_prose_reply) (post fitness_request))
       = json_response 500 (error_body (js ''Failed to parse AI response. Please try again.''))"
    by blast
  from 1 2 show ?thesis
    by (simp add: reaches_fitness model_reply_replying plain_reply_match
          braces_in_prose_direct braces_in_prose_match braces_in_prose_block)
qed

end
